theory Spec2Isabelle
  imports Complex_Main
begin

section \<open>The API service: request cache and lookup helpers\<close>

subsection \<open>Cache keys\<close>

text \<open>
  \<^verbatim>\<open>function cacheKey(...args) { return args.join('|'); }\<close>

  The arguments the call sites pass are strings (operation name, disease, a geocode read
  from a form control) and integer numbers (geocodes of the capitals table, weeks, years).
  \<open>Array.prototype.join\<close> renders \<open>null\<close> and \<open>undefined\<close> as the empty string and
  every other element by \<open>ToString\<close>; for an integer of this magnitude that is its
  decimal numeral, with a leading minus sign when negative.
\<close>

datatype arg = Str string | Number int | Null | Undefined

fun show_nat :: "nat \<Rightarrow> string" where
  "show_nat n =
     (if n < 10 then [''0123456789'' ! n]
      else show_nat (n div 10) @ [''0123456789'' ! (n mod 10)])"

declare show_nat.simps [simp del]

definition show_int :: "int \<Rightarrow> string" where
  "show_int i = (if i < 0 then CHR ''-'' # show_nat (nat (- i)) else show_nat (nat i))"

fun toString :: "arg \<Rightarrow> string" where
  "toString (Str s) = s"
| "toString (Number n) = show_int n"
| "toString Null = []"
| "toString Undefined = []"

fun join :: "string \<Rightarrow> string list \<Rightarrow> string" where
  "join sep [] = []"
| "join sep [x] = x"
| "join sep (x # y # ys) = x @ sep @ join sep (y # ys)"

definition cacheKey :: "arg list \<Rightarrow> string" where
  "cacheKey args = join ''|'' (map toString args)"

subsection \<open>Alert level helpers\<close>

text \<open>
  \<^verbatim>\<open>
  export function getAlertColorHex(nivel) {
      const colors = { 1: '#22c55e', 2: '#eab308', 3: '#f97316', 4: '#ef4444' };
      return colors[nivel] || colors[1];
  }
  \<close>
  The argument is the \<open>nivel\<close> field of a record parsed from a JSON body: a number, a
  string, a boolean, \<open>null\<close>, an array or an object, or \<open>undefined\<close> when the record
  lacks the field. A finite number is the rational it denotes.
\<close>

datatype nivel =
    Num rat | NaN | PosInfinity | NegInfinity
  | Text string | Bool bool | NullLevel | UndefinedLevel
  | Array "nivel list" | PlainObject










subsection \<open>The request cache\<close>

text \<open>
  \<^verbatim>\<open>
  const cache = new Map();

  async function cachedFetch(key, fetcher) {
      if (cache.has(key)) return cache.get(key);
      const data = await fetcher();
      cache.set(key, data);
      return data;
  }
  \<close>
  A call runs in up to two turns of the event loop. The first looks the key up and either
  returns the cached value or calls the fetcher and suspends at the \<open>await\<close>. The second
  runs when the fetcher's promise has settled: on a failure the call rejects and the cache
  is left alone; on data the call stores it under the key, whatever the cache holds by
  then, and resolves with it. Promises are rejected (\<open>Inl\<close>) or resolved (\<open>Inr\<close>).
\<close>

datatype failure = Failure string

type_synonym 'v cache = "string \<rightharpoonup> 'v"

datatype 'v started = FromCache 'v | FetcherCalled

definition cachedFetch_start :: "string \<Rightarrow> 'v cache \<Rightarrow> 'v started" where
  "cachedFetch_start key cache =
     (case cache key of Some v \<Rightarrow> FromCache v | None \<Rightarrow> FetcherCalled)"

definition cachedFetch_resume ::
  "string \<Rightarrow> failure + 'v \<Rightarrow> 'v cache \<Rightarrow> (failure + 'v) \<times> 'v cache" where
  "cachedFetch_resume key r cache =
     (case r of
        Inl err \<Rightarrow> (Inl err, cache)
      | Inr data \<Rightarrow> (Inr data, cache(key \<mapsto> data)))"

text \<open>
  The turns of any number of calls interleave. The service state is the cache together
  with the calls suspended at their fetcher, each with a number that identifies the call
  (no two suspended calls of a run share one) and its key. A turn is the first turn of a new call, or the settlement of the fetcher
  of a suspended call with what it settled to; the observation of a turn is what the call
  returns in it, or that it suspended.
\<close>

record 'v service =
  entries :: "'v cache"
  suspended :: "(nat \<times> string) list"

datatype 'v turn = Call nat string | FetcherSettled nat "failure + 'v"

datatype 'v observed = Returned "failure + 'v" | Suspended | NoSuchCall

fun turn_effect :: "'v turn \<Rightarrow> 'v service \<Rightarrow> 'v observed \<times> 'v service" where
  "turn_effect (Call i key) s =
     (case cachedFetch_start key (entries s) of
        FromCache v \<Rightarrow> (Returned (Inr v), s)
      | FetcherCalled \<Rightarrow> (Suspended, s \<lparr> suspended := suspended s @ [(i, key)] \<rparr>))"
| "turn_effect (FetcherSettled i r) s =
     (case map_of (suspended s) i of
        None \<Rightarrow> (NoSuchCall, s)
      | Some key \<Rightarrow>
          (case cachedFetch_resume key r (entries s) of
             (result, cache') \<Rightarrow>
               (Returned result,
                \<lparr> entries = cache', suspended = filter (\<lambda>c. fst c \<noteq> i) (suspended s) \<rparr>)))"

definition after_turns :: "'v turn list \<Rightarrow> 'v service \<Rightarrow> 'v service" where
  "after_turns turns s = fold (\<lambda>t s. snd (turn_effect t s)) turns s"

definition freshService :: "'v service" where
  "freshService = \<lparr> entries = Map.empty, suspended = [] \<rparr>"

text \<open>
  A key holds a value and no call on that key is suspended: no settlement can replace the
  value.
\<close>

definition settled_alone :: "string \<Rightarrow> 'v \<Rightarrow> 'v service \<Rightarrow> bool" where
  "settled_alone key v s \<longleftrightarrow> entries s key = Some v \<and> key \<notin> snd ` set (suspended s)"

text \<open>
  \<open>cachedFetch\<close> is a call whose two turns follow each other with no turn of another call
  on its key in between, as the calls of the national overview below are. Its fetcher is a
  closure of the module that may itself go through the cache, so it takes the cache and
  returns it. The result records whether the fetcher was called. A fetcher that only goes
  to the network leaves the cache alone.
\<close>

type_synonym 'v fetcher = "'v cache \<Rightarrow> (failure + 'v) \<times> 'v cache"

record 'v settlement =
  settled :: "failure + 'v"
  fetcher_called :: bool
  cache_after :: "'v cache"

definition cachedFetch :: "string \<Rightarrow> 'v fetcher \<Rightarrow> 'v cache \<Rightarrow> 'v settlement" where
  "cachedFetch key fetcher cache =
     (case cachedFetch_start key cache of
        FromCache v \<Rightarrow> \<lparr> settled = Inr v, fetcher_called = False, cache_after = cache \<rparr>
      | FetcherCalled \<Rightarrow>
          (case fetcher cache of
             (r, cache') \<Rightarrow>
               (case cachedFetch_resume key r cache' of
                  (result, cache'') \<Rightarrow>
                    \<lparr> settled = result, fetcher_called = True, cache_after = cache'' \<rparr>)))"

definition network_fetcher :: "failure + 'v \<Rightarrow> 'v fetcher" where
  "network_fetcher response cache = (response, cache)"

subsection \<open>Disease data and the national overview\<close>

text \<open>
  An alert record carries its epidemiological week \<open>SE\<close> and its alert level (the other
  fields play no part here). The cache holds values of several shapes under keys of
  different forms: a sorted series under a \<open>disease|...\<close> key, an overview under a
  \<open>national|...\<close> key, and the documents of the locality and boundary services under
  \<open>states\<close>, \<open>municipios-...\<close> and \<open>brazil-geo\<close>.
\<close>

record alert =
  SE :: rat
  nivel :: nivel

record capital =
  name :: string
  geocode :: int
  uf :: string

record capital_entry = capital +
  data :: "alert list"
  latest :: "alert option"

datatype cached = Series "alert list" | Overview "capital_entry list" | Document string

text \<open>
  \<^verbatim>\<open>
  export async function fetchDiseaseData(geocode, disease = 'dengue', ewStart = 1,
          ewEnd = 52, eyStart = 2025, eyEnd = 2025) {
      const key = cacheKey('disease', geocode, disease, ewStart, ewEnd, eyStart, eyEnd);
      return cachedFetch(key, async () => {
          const baseUrl = ...;
          const url = `${baseUrl}/alertcity?geocode=${geocode}&disease=${disease}&...`;
          const res = await fetch(url);
          if (!res.ok) throw new Error(`Falha ao carregar dados de ${disease}`);
          const data = await res.json();
          return data.sort((a, b) => a.SE - b.SE);
      });
  }
  \<close>
  The network is a parameter: what the alert service answers to a request, a failure (the
  fetch rejects, the status is not a success, or the body is not a JSON array) or the
  records of the body. The sort is stable and ascending in \<open>SE\<close>. A default parameter
  value replaces \<open>undefined\<close>.
\<close>

type_synonym network = "arg list \<Rightarrow> failure + alert list"

definition or_default :: "arg \<Rightarrow> arg \<Rightarrow> arg" where
  "or_default a d = (case a of Undefined \<Rightarrow> d | _ \<Rightarrow> a)"

definition fetchDiseaseData ::
  "network \<Rightarrow> arg \<Rightarrow> arg \<Rightarrow> arg \<Rightarrow> arg \<Rightarrow> arg \<Rightarrow> arg \<Rightarrow> cached cache \<Rightarrow> cached settlement" where
  "fetchDiseaseData net geocode' disease0 ewStart0 ewEnd0 eyStart0 eyEnd0 cache =
     (let disease = or_default disease0 (Str ''dengue'');
          ewStart = or_default ewStart0 (Number 1);
          ewEnd = or_default ewEnd0 (Number 52);
          eyStart = or_default eyStart0 (Number 2025);
          eyEnd = or_default eyEnd0 (Number 2025);
          key = cacheKey [Str ''disease'', geocode', disease, ewStart, ewEnd, eyStart, eyEnd]
      in cachedFetch key
           (network_fetcher
              (case net [geocode', disease, ewStart, ewEnd, eyStart, eyEnd] of
                 Inl err \<Rightarrow> Inl err
               | Inr records \<Rightarrow> Inr (Series (sort_key SE records))))
           cache)"

text \<open>
  The capitals table of \<open>fetchNationalOverview\<close>, names written without diacritics.
\<close>

definition capitals :: "capital list" where
  "capitals =
     [\<lparr> name = ''Sao Paulo'', geocode = 3550308, uf = ''SP'' \<rparr>,
      \<lparr> name = ''Rio de Janeiro'', geocode = 3304557, uf = ''RJ'' \<rparr>,
      \<lparr> name = ''Belo Horizonte'', geocode = 3106200, uf = ''MG'' \<rparr>,
      \<lparr> name = ''Salvador'', geocode = 2927408, uf = ''BA'' \<rparr>,
      \<lparr> name = ''Brasilia'', geocode = 5300108, uf = ''DF'' \<rparr>,
      \<lparr> name = ''Fortaleza'', geocode = 2304400, uf = ''CE'' \<rparr>,
      \<lparr> name = ''Manaus'', geocode = 1302603, uf = ''AM'' \<rparr>,
      \<lparr> name = ''Curitiba'', geocode = 4106902, uf = ''PR'' \<rparr>,
      \<lparr> name = ''Recife'', geocode = 2611606, uf = ''PE'' \<rparr>,
      \<lparr> name = ''Goiania'', geocode = 5208707, uf = ''GO'' \<rparr>,
      \<lparr> name = ''Belem'', geocode = 1501402, uf = ''PA'' \<rparr>,
      \<lparr> name = ''Porto Alegre'', geocode = 4314902, uf = ''RS'' \<rparr>,
      \<lparr> name = ''Sao Luis'', geocode = 2111300, uf = ''MA'' \<rparr>,
      \<lparr> name = ''Maceio'', geocode = 2704302, uf = ''AL'' \<rparr>,
      \<lparr> name = ''Campo Grande'', geocode = 5002704, uf = ''MS'' \<rparr>,
      \<lparr> name = ''Natal'', geocode = 2408102, uf = ''RN'' \<rparr>,
      \<lparr> name = ''Teresina'', geocode = 2211001, uf = ''PI'' \<rparr>,
      \<lparr> name = ''Joao Pessoa'', geocode = 2507507, uf = ''PB'' \<rparr>,
      \<lparr> name = ''Aracaju'', geocode = 2800308, uf = ''SE'' \<rparr>,
      \<lparr> name = ''Cuiaba'', geocode = 5103403, uf = ''MT'' \<rparr>,
      \<lparr> name = ''Florianopolis'', geocode = 4205407, uf = ''SC'' \<rparr>,
      \<lparr> name = ''Vitoria'', geocode = 3205309, uf = ''ES'' \<rparr>,
      \<lparr> name = ''Porto Velho'', geocode = 1100205, uf = ''RO'' \<rparr>,
      \<lparr> name = ''Macapa'', geocode = 1600303, uf = ''AP'' \<rparr>,
      \<lparr> name = ''Rio Branco'', geocode = 1200401, uf = ''AC'' \<rparr>,
      \<lparr> name = ''Boa Vista'', geocode = 1400100, uf = ''RR'' \<rparr>,
      \<lparr> name = ''Palmas'', geocode = 1721000, uf = ''TO'' \<rparr>]"

text \<open>
  \<^verbatim>\<open>
  const currentDate = new Date();
  const currentYear = currentDate.getFullYear();
  const startOfYear = new Date(currentYear, 0, 1);
  const dayOfYear = Math.floor((currentDate - startOfYear) / 86400000);
  const currentEW = Math.min(Math.ceil(dayOfYear / 7), 52);
  const startEW = Math.max(1, currentEW - 4);
  \<close>
  The clock gives the year and the number of whole days since the start of the year.
\<close>

record clock =
  currentYear :: int
  dayOfYear :: int

definition currentEW :: "clock \<Rightarrow> int" where
  "currentEW now = min (- ((- dayOfYear now) div 7)) 52"

definition startEW :: "clock \<Rightarrow> int" where
  "startEW now = max 1 (currentEW now - 4)"

text \<open>
  \<^verbatim>\<open>
  capitals.map(async (cap) => {
      try {
          const data = await fetchDiseaseData(cap.geocode, disease, startEW, currentEW,
                                              currentYear, currentYear);
          const latest = data.length > 0 ? data[data.length - 1] : null;
          return { ...cap, data, latest };
      } catch {
          return { ...cap, data: [], latest: null };
      }
  })
  \<close>
  Each of these calls starts in the turn that issues them all: every one looks its key up
  in the cache as it is then, before any of them stores a result. The call for a capital
  settles to the promise state of its async arrow function, which catches every failure.
  A cached value of another shape than a series under a disease key does not occur (see
  \<open>cache_ok\<close>); the model sends it to the \<open>catch\<close> clause.
\<close>

datatype 'a promise = Fulfilled_with 'a | Rejected_with failure

definition capital_call ::
  "network \<Rightarrow> clock \<Rightarrow> arg \<Rightarrow> cached cache \<Rightarrow> capital \<Rightarrow> cached settlement" where
  "capital_call net now disease cache cap =
     fetchDiseaseData net (Number (geocode cap)) disease (Number (startEW now))
       (Number (currentEW now)) (Number (currentYear now)) (Number (currentYear now)) cache"

definition with_data :: "capital \<Rightarrow> alert list \<Rightarrow> alert option \<Rightarrow> capital_entry" where
  "with_data cap d l =
     \<lparr> name = name cap, geocode = geocode cap, uf = uf cap, data = d, latest = l \<rparr>"

definition capital_result ::
  "network \<Rightarrow> clock \<Rightarrow> arg \<Rightarrow> cached cache \<Rightarrow> capital \<Rightarrow> capital_entry promise" where
  "capital_result net now disease cache cap =
     (case settled (capital_call net now disease cache cap) of
        Inr (Series d) \<Rightarrow>
          Fulfilled_with (with_data cap d (if length d > 0 then Some (last d) else None))
      | Inr other \<Rightarrow> Fulfilled_with (with_data cap [] None)
      | Inl err \<Rightarrow> Fulfilled_with (with_data cap [] None))"

text \<open>The entries the settled calls leave in the cache: each stores under its own key.\<close>

fun store_results ::
  "network \<Rightarrow> clock \<Rightarrow> arg \<Rightarrow> cached cache \<Rightarrow> capital list \<Rightarrow> cached cache \<Rightarrow> cached cache" where
  "store_results net now disease cache0 [] cache = cache"
| "store_results net now disease cache0 (cap # caps) cache =
     store_results net now disease cache0 caps
       (cache ++ (cache_after (capital_call net now disease cache0 cap) |` (- dom cache0)))"

text \<open>
  \<^verbatim>\<open>
  export async function fetchNationalOverview(disease = 'dengue') {
      const key = cacheKey('national', disease);
      return cachedFetch(key, async () => {
          const capitals = [...];
          ...
          const results = await Promise.allSettled(capitals.map(async (cap) => {...}));
          return results
              .filter(r => r.status === 'fulfilled')
              .map(r => r.value);
      });
  }
  \<close>
\<close>

fun fulfilled_values :: "'a promise list \<Rightarrow> 'a list" where
  "fulfilled_values [] = []"
| "fulfilled_values (Fulfilled_with v # rs) = v # fulfilled_values rs"
| "fulfilled_values (Rejected_with e # rs) = fulfilled_values rs"

definition overview_fetcher :: "network \<Rightarrow> clock \<Rightarrow> arg \<Rightarrow> cached fetcher" where
  "overview_fetcher net now disease cache =
     (let results = map (capital_result net now disease cache) capitals
      in (Inr (Overview (fulfilled_values results)),
          store_results net now disease cache capitals cache))"

definition fetchNationalOverview ::
  "network \<Rightarrow> clock \<Rightarrow> arg \<Rightarrow> cached cache \<Rightarrow> cached settlement" where
  "fetchNationalOverview net now disease0 cache =
     (let disease = or_default disease0 (Str ''dengue'');
          key = cacheKey [Str ''national'', disease]
      in cachedFetch key (overview_fetcher net now disease) cache)"

text \<open>
  The shapes the cache of the module holds: an entry under a \<open>national|...\<close> key is an
  overview with one entry per capital of the table, in its order, and an entry under a
  \<open>disease|...\<close> key is a series. The keys of the other operations start with another
  letter.
\<close>

definition entry_capital :: "capital_entry \<Rightarrow> capital" where
  "entry_capital e = \<lparr> name = name e, geocode = geocode e, uf = uf e \<rparr>"

definition cache_ok :: "cached cache \<Rightarrow> bool" where
  "cache_ok cache \<longleftrightarrow>
     (\<forall>key v. cache key = Some v \<longrightarrow>
        (hd key = CHR ''n'' \<longrightarrow> (\<exists>es. v = Overview es \<and> map entry_capital es = capitals)) \<and>
        (hd key = CHR ''d'' \<longrightarrow> (\<exists>d. v = Series d)))"

text \<open>
  The other cached operations of the service, with what the locality or boundary service
  answers (a failure or the parsed body) as a parameter.
  \<^verbatim>\<open>
  export async function fetchStates() {
      return cachedFetch('states', async () => {
          const res = await fetch('.../localidades/estados?orderBy=nome');
          if (!res.ok) throw new Error('Falha ao carregar estados');
          return res.json();
      });
  }
  export async function fetchMunicipios(ufId) {
      return cachedFetch(`municipios-${ufId}`, async () => { ... });
  }
  export async function fetchBrazilGeoJSON() {
      return cachedFetch('brazil-geo', async () => { ... });
  }
  \<close>
  A template literal renders \<open>null\<close> and \<open>undefined\<close> by their names.
\<close>

fun template :: "arg \<Rightarrow> string" where
  "template (Str s) = s"
| "template (Number n) = show_int n"
| "template Null = ''null''"
| "template Undefined = ''undefined''"

definition document :: "failure + string \<Rightarrow> failure + cached" where
  "document response = (case response of Inl err \<Rightarrow> Inl err | Inr body \<Rightarrow> Inr (Document body))"

definition fetchStates :: "failure + string \<Rightarrow> cached cache \<Rightarrow> cached settlement" where
  "fetchStates response cache = cachedFetch ''states'' (network_fetcher (document response)) cache"

definition fetchMunicipios ::
  "failure + string \<Rightarrow> arg \<Rightarrow> cached cache \<Rightarrow> cached settlement" where
  "fetchMunicipios response ufId cache =
     cachedFetch (''municipios-'' @ template ufId) (network_fetcher (document response)) cache"

definition fetchBrazilGeoJSON :: "failure + string \<Rightarrow> cached cache \<Rightarrow> cached settlement" where
  "fetchBrazilGeoJSON response cache =
     cachedFetch ''brazil-geo'' (network_fetcher (document response)) cache"

text \<open>
  The cache of the module is empty when the module is loaded and changes through the
  calls of its exported operations only.
\<close>

datatype api_call =
    FetchStates "failure + string"
  | FetchMunicipios "failure + string" arg
  | FetchBrazilGeoJSON "failure + string"
  | FetchDiseaseData network arg arg arg arg arg arg
  | FetchNationalOverview network clock arg

fun after_call :: "api_call \<Rightarrow> cached cache \<Rightarrow> cached cache" where
  "after_call (FetchStates r) cache = cache_after (fetchStates r cache)"
| "after_call (FetchMunicipios r ufId) cache = cache_after (fetchMunicipios r ufId cache)"
| "after_call (FetchBrazilGeoJSON r) cache = cache_after (fetchBrazilGeoJSON r cache)"
| "after_call (FetchDiseaseData net g d ws we ys ye) cache =
     cache_after (fetchDiseaseData net g d ws we ys ye cache)"
| "after_call (FetchNationalOverview net now d) cache =
     cache_after (fetchNationalOverview net now d cache)"

definition module_cache :: "api_call list \<Rightarrow> cached cache" where
  "module_cache calls = fold after_call calls Map.empty"

text \<open>
  An example for the overview: the alert service answers for Sao Paulo with two
  records out of order, for Rio de Janeiro with no record, and fails for every other
  capital; the clock stands at day 280 of 2025.
\<close>

definition exampleNetwork :: network where
  "exampleNetwork req =
     (if hd req = Number 3550308 then
        Inr [\<lparr> SE = 202540, nivel = Num 2 \<rparr>, \<lparr> SE = 202539, nivel = Num 1 \<rparr>]
      else if hd req = Number 3304557 then Inr []
      else Inl (Failure ''Falha ao carregar dados de dengue''))"

definition exampleClock :: clock where
  "exampleClock = \<lparr> currentYear = 2025, dayOfYear = 280 \<rparr>"

section \<open>The map component: municipality layers on zoom\<close>

text \<open>
  Identifiers of federative units, municipality codes and zoom levels are JavaScript
  numbers. Diseases are the strings the pathogen selector passes.
\<close>

type_synonym number = rat
type_synonym disease = string

subsection \<open>Units visible in the viewport\<close>

text \<open>
  \<^verbatim>\<open>
  const UF_IDS = [11, 12, 13, 14, 15, 16, 17, 21, 22, 23, 24, 25, 26, 27, 28, 29,
                  31, 32, 33, 35, 41, 42, 43, 50, 51, 52, 53];

  function getVisibleUFs(bounds) {
      if (!geoLayer) return [];
      const visible = [];
      geoLayer.eachLayer(layer => {
          if (layer.feature && layer.getBounds) {
              try {
                  const layerBounds = layer.getBounds();
                  if (bounds.intersects(layerBounds)) {
                      const ufId = Number(layer.feature.properties.codarea);
                      if (UF_IDS.includes(ufId)) {
                          visible.push(ufId);
                      }
                  }
              } catch { /* skip */ }
          }
      });
      return visible;
  }
  \<close>
  A drawn layer may lack its \<open>feature\<close> or its \<open>getBounds\<close> method; a present method
  may throw, or return bounds without corners, on which \<open>intersects\<close> throws a
  \<open>TypeError\<close> when it reads a corner's latitude; a feature may lack \<open>properties\<close>, and
  reading \<open>codarea\<close> of it throws as well. \<open>intersects\<close> is the mapping library's test
  on two latitude/longitude rectangles: they share at least one point. \<open>Number\<close> is the
  language's conversion, a parameter here: \<open>None\<close> stands for \<open>NaN\<close>, which
  \<open>includes\<close> never finds in \<open>UF_IDS\<close>.
\<close>

definition UF_IDS :: "number list" where
  "UF_IDS = [11, 12, 13, 14, 15, 16, 17, 21, 22, 23, 24, 25, 26, 27, 28, 29,
             31, 32, 33, 35, 41, 42, 43, 50, 51, 52, 53]"

datatype js_error = TypeError | LibraryError

record latLngBounds =
  south :: number
  west :: number
  north :: number
  east :: number

datatype getBounds_method = Throws | Returns "latLngBounds option"

record properties =
  codarea :: arg

record feature =
  properties :: "properties option"

record layer =
  feature :: "feature option"
  getBounds :: "getBounds_method option"

definition intersects :: "latLngBounds \<Rightarrow> latLngBounds option \<Rightarrow> js_error + bool" where
  "intersects this other =
     (case other of
        None \<Rightarrow> Inl TypeError
      | Some b \<Rightarrow>
          Inr ((north b \<ge> south this \<and> south b \<le> north this) \<and>
               (east b \<ge> west this \<and> west b \<le> east this)))"

text \<open>
  The body of the \<open>try\<close> block for one layer: an exception, or the identifier pushed
  (\<open>None\<close> when nothing is pushed).
\<close>

definition try_body ::
  "(arg \<Rightarrow> number option) \<Rightarrow> latLngBounds \<Rightarrow> feature \<Rightarrow> getBounds_method
     \<Rightarrow> js_error + number option" where
  "try_body toNumber bounds f gb =
     (case gb of
        Throws \<Rightarrow> Inl LibraryError
      | Returns layerBounds \<Rightarrow>
          (case intersects bounds layerBounds of
             Inl e \<Rightarrow> Inl e
           | Inr hit \<Rightarrow>
               if hit then
                 (case properties f of
                    None \<Rightarrow> Inl TypeError
                  | Some p \<Rightarrow>
                      (case toNumber (codarea p) of
                         None \<Rightarrow> Inr None
                       | Some ufId \<Rightarrow>
                           if ufId \<in> set UF_IDS then Inr (Some ufId) else Inr None))
               else Inr None))"

text \<open>What one layer appends to \<open>visible\<close>; the \<open>catch\<close> clause swallows any exception.\<close>

definition visit_layer ::
  "(arg \<Rightarrow> number option) \<Rightarrow> latLngBounds \<Rightarrow> layer \<Rightarrow> number list" where
  "visit_layer toNumber bounds l =
     (case feature l of
        None \<Rightarrow> []
      | Some f \<Rightarrow>
          (case getBounds l of
             None \<Rightarrow> []
           | Some gb \<Rightarrow>
               (case try_body toNumber bounds f gb of
                  Inl e \<Rightarrow> []
                | Inr None \<Rightarrow> []
                | Inr (Some ufId) \<Rightarrow> [ufId])))"

fun eachLayer ::
  "(arg \<Rightarrow> number option) \<Rightarrow> latLngBounds \<Rightarrow> layer list \<Rightarrow> number list \<Rightarrow> number list" where
  "eachLayer toNumber bounds [] visible = visible"
| "eachLayer toNumber bounds (l # ls) visible =
     eachLayer toNumber bounds ls (visible @ visit_layer toNumber bounds l)"

definition getVisibleUFs ::
  "(arg \<Rightarrow> number option) \<Rightarrow> latLngBounds \<Rightarrow> layer list option \<Rightarrow> number list" where
  "getVisibleUFs toNumber bounds geoLayer =
     (case geoLayer of
        None \<Rightarrow> []
      | Some layers \<Rightarrow> eachLayer toNumber bounds layers [])"

text \<open>
  A layer with a usable bounding box: it has its feature, and its \<open>getBounds\<close> method
  returns bounds with corners.
\<close>

definition has_valid_bounds :: "layer \<Rightarrow> bool" where
  "has_valid_bounds l =
     (case (feature l, getBounds l) of
        (Some f, Some (Returns (Some b))) \<Rightarrow> True
      | _ \<Rightarrow> False)"

definition has_feature_data :: "layer \<Rightarrow> bool" where
  "has_feature_data l =
     (case feature l of
        None \<Rightarrow> False
      | Some f \<Rightarrow> properties f \<noteq> None)"

subsection \<open>The municipality layer manager\<close>

text \<open>
  The module state of the map component. The alert map of a unit maps municipality codes
  to alert records; a municipality layer is what \<open>L.geoJSON\<close> builds from the unit's
  geometry with a style function that closes over the alert map. A layer also records
  the disease its alert map was requested for: the argument \<open>currentDisease\<close> had when
  \<open>fetchBulkMunicipioAlerts\<close> was called. The code keeps no such tag; the field is there
  to state for which disease a displayed layer was styled.

  \<open>inFlight\<close> holds the calls of \<open>loadMunicipioLayer\<close> suspended at
  \<open>await Promise.all([...])\<close>, each with its unit and the disease the alert request was
  issued with. A municipality layer is added to the map exactly when it is stored in
  \<open>loadedMunicipioLayers\<close> and removed from the map exactly when its entry is deleted,
  so the table is also the set of displayed municipality layers.
\<close>

type_synonym alertMap = "number \<rightharpoonup> alert"

datatype geojson = NotGeoJSON | FeatureCollection "number list"

record municipioLayer =
  geometry :: "number list"
  alertsOf :: alertMap
  requestedFor :: disease

record leafletMap =
  getZoom :: number
  mapBounds :: latLngBounds

record mapState =
  mapObj :: "leafletMap option"
  geoLayer :: "layer list option"
  currentDisease :: disease
  loadedMunicipioLayers :: "number \<rightharpoonup> municipioLayer"
  loadingStates :: "number set"
  municipioAlertCache :: "number \<rightharpoonup> alertMap"
  inFlight :: "(number \<times> disease) list"

text \<open>
  What the component reads from outside: the language's \<open>Number\<close> conversion and the
  table \<open>MAJOR_CITIES_BY_UF\<close> of the API service (unit to the geocodes of its tracked
  municipalities), whose source is not part of the map component.
\<close>

record env =
  toNumber :: "arg \<Rightarrow> number option"
  MAJOR_CITIES_BY_UF :: "number \<rightharpoonup> number list"

definition MUNICIPIO_ZOOM_THRESHOLD :: number where
  "MUNICIPIO_ZOOM_THRESHOLD = 6"

definition initialState :: mapState where
  "initialState =
     \<lparr> mapObj = None, geoLayer = None, currentDisease = ''dengue'',
       loadedMunicipioLayers = Map.empty, loadingStates = {},
       municipioAlertCache = Map.empty, inFlight = [] \<rparr>"

text \<open>
  \<^verbatim>\<open>
  async function loadMunicipioLayer(ufId) {
      if (loadedMunicipioLayers[ufId] || loadingStates.has(ufId)) return;
      if (!MAJOR_CITIES_BY_UF[ufId]) return;
      loadingStates.add(ufId);
      try {
          const [geojson, alertMap] = await Promise.all([
              fetchStateGeoJSON(ufId),
              fetchBulkMunicipioAlerts(MAJOR_CITIES_BY_UF[ufId], currentDisease),
          ]);
          municipioAlertCache[ufId] = alertMap;
          const municipioLayer = L.geoJSON(geojson, { style: ..., onEachFeature: ... });
          municipioLayer.addTo(map);
          loadedMunicipioLayers[ufId] = municipioLayer;
      } catch (err) {
          console.error(...);
      } finally {
          loadingStates.delete(ufId);
      }
  }
  \<close>
  The function runs in two turns of the event loop. The first runs up to the \<open>await\<close>:
  it returns early, or marks the unit as loading and issues the two fetches. The second
  runs when both fetches have settled.
\<close>

definition loadMunicipioLayer :: "env \<Rightarrow> number \<Rightarrow> mapState \<Rightarrow> mapState" where
  "loadMunicipioLayer e ufId s =
     (if ufId \<in> dom (loadedMunicipioLayers s) \<or> ufId \<in> loadingStates s then s
      else if MAJOR_CITIES_BY_UF e ufId = None then s
      else s \<lparr> loadingStates := insert ufId (loadingStates s),
               inFlight := inFlight s @ [(ufId, currentDisease s)] \<rparr>)"

datatype settled = Rejected | Fulfilled geojson alertMap

text \<open>\<open>L.geoJSON\<close> throws on an object that is not GeoJSON.\<close>

definition L_geoJSON :: "geojson \<Rightarrow> alertMap \<Rightarrow> disease \<Rightarrow> js_error + municipioLayer" where
  "L_geoJSON g alertMap d =
     (case g of
        NotGeoJSON \<Rightarrow> Inl LibraryError
      | FeatureCollection fs \<Rightarrow>
          Inr \<lparr> geometry = fs, alertsOf = alertMap, requestedFor = d \<rparr>)"

definition loadMunicipioLayer_resume ::
  "number \<Rightarrow> disease \<Rightarrow> settled \<Rightarrow> mapState \<Rightarrow> mapState" where
  "loadMunicipioLayer_resume ufId d r s =
     (case r of
        Rejected \<Rightarrow> s \<lparr> loadingStates := loadingStates s - {ufId} \<rparr>
      | Fulfilled g alertMap \<Rightarrow>
          (let s1 = s \<lparr> municipioAlertCache := (municipioAlertCache s)(ufId \<mapsto> alertMap) \<rparr>
           in case L_geoJSON g alertMap d of
                Inl err \<Rightarrow> s1 \<lparr> loadingStates := loadingStates s1 - {ufId} \<rparr>
              | Inr municipioLayer \<Rightarrow>
                  s1 \<lparr> loadedMunicipioLayers :=
                         (loadedMunicipioLayers s1)(ufId \<mapsto> municipioLayer),
                       loadingStates := loadingStates s1 - {ufId} \<rparr>))"

text \<open>
  \<^verbatim>\<open>
  function removeMunicipioLayers() {
      for (const ufId of Object.keys(loadedMunicipioLayers)) {
          if (loadedMunicipioLayers[ufId]) {
              map.removeLayer(loadedMunicipioLayers[ufId]);
              delete loadedMunicipioLayers[ufId];
          }
      }
  }
  \<close>
  Every stored value is a layer object, so the loop deletes every key.
\<close>

definition removeMunicipioLayers :: "mapState \<Rightarrow> mapState" where
  "removeMunicipioLayers s = s \<lparr> loadedMunicipioLayers := Map.empty \<rparr>"

text \<open>
  \<^verbatim>\<open>
  function handleZoomChange() {
      const zoom = map.getZoom();
      if (zoom >= MUNICIPIO_ZOOM_THRESHOLD) {
          const bounds = map.getBounds();
          const visibleUFs = getVisibleUFs(bounds);
          visibleUFs.forEach(ufId => loadMunicipioLayer(ufId));
          ...
      } else {
          removeMunicipioLayers();
          ...
      }
  }
  \<close>
  The elided statements restyle the state layer only. The handler runs with the map
  object it is registered on.
\<close>

definition handleZoomChange :: "env \<Rightarrow> leafletMap \<Rightarrow> mapState \<Rightarrow> mapState" where
  "handleZoomChange e m s =
     (if getZoom m \<ge> MUNICIPIO_ZOOM_THRESHOLD then
        fold (loadMunicipioLayer e) (getVisibleUFs (toNumber e) (mapBounds m) (geoLayer s)) s
      else removeMunicipioLayers s)"

text \<open>
  \<^verbatim>\<open>
  export function setMapDisease(disease) {
      currentDisease = disease;
      for (const ufId of Object.keys(loadedMunicipioLayers)) {
          if (loadedMunicipioLayers[ufId]) {
              map.removeLayer(loadedMunicipioLayers[ufId]);
              delete loadedMunicipioLayers[ufId];
          }
          delete municipioAlertCache[ufId];
      }
      if (map && map.getZoom() >= MUNICIPIO_ZOOM_THRESHOLD) {
          handleZoomChange();
      }
  }
  \<close>
  The loop deletes every loaded layer and, for the units that had one, the alert cache
  entry.
\<close>

definition setMapDisease :: "env \<Rightarrow> disease \<Rightarrow> mapState \<Rightarrow> mapState" where
  "setMapDisease e d s =
     (let s1 = s \<lparr> currentDisease := d,
                   municipioAlertCache :=
                     (\<lambda>ufId. if ufId \<in> dom (loadedMunicipioLayers s) then None
                             else municipioAlertCache s ufId),
                   loadedMunicipioLayers := Map.empty \<rparr>
      in case mapObj s1 of
           None \<Rightarrow> s1
         | Some m \<Rightarrow>
             if getZoom m \<ge> MUNICIPIO_ZOOM_THRESHOLD then handleZoomChange e m s1 else s1)"

text \<open>
  The turns of the event loop that touch the municipality state: the map reports the end
  of a zoom or a pan (with the zoom and bounds it then has), the pathogen selector
  switches the disease, the state layer is (re)built, or the pair of fetches of a
  suspended \<open>loadMunicipioLayer\<close> call settles. A settlement for a unit without a
  suspended call does not occur.
\<close>

datatype event =
    ViewportChange leafletMap
  | DiseaseSelected disease
  | StateLayerBuilt "layer list"
  | FetchesSettled number settled

definition settle :: "number \<Rightarrow> settled \<Rightarrow> mapState \<Rightarrow> mapState" where
  "settle ufId r s =
     (case find (\<lambda>c. fst c = ufId) (inFlight s) of
        None \<Rightarrow> s
      | Some c \<Rightarrow>
          loadMunicipioLayer_resume ufId (snd c) r (s \<lparr> inFlight := remove1 c (inFlight s) \<rparr>))"

fun step :: "env \<Rightarrow> event \<Rightarrow> mapState \<Rightarrow> mapState" where
  "step e (ViewportChange m) s = handleZoomChange e m (s \<lparr> mapObj := Some m \<rparr>)"
| "step e (DiseaseSelected d) s = setMapDisease e d s"
| "step e (StateLayerBuilt ls) s = s \<lparr> geoLayer := Some ls \<rparr>"
| "step e (FetchesSettled ufId r) s = settle ufId r s"

definition run :: "env \<Rightarrow> event list \<Rightarrow> mapState \<Rightarrow> mapState" where
  "run e evs s = fold (step e) evs s"

subsection \<open>Sanitation opacity\<close>

text \<open>
  \<^verbatim>\<open>
  function getSanitationOpacity(percent) {
      return 0.35 + (percent / 100) * 0.4; // range: 0.35 - 0.75
  }
  \<close>
  The numbers are IEEE 754 binary64 values, modelled by the rationals they denote. Every
  literal and every arithmetic operation yields the exact result rounded to the nearest
  representable value, ties to the even significand: \<open>exponent\<close> is the binary exponent
  of the result's binade, not below the smallest normal exponent \<open>-1022\<close> (so that small
  values round on the subnormal grid), \<open>ulp\<close> the spacing of the representable values
  there (52 fraction bits), and \<open>round_double\<close> rounds to that grid. Magnitudes from
  \<open>2 ^ 1024\<close> on, which overflow to infinity, do not occur in this function on percents
  up to 100 and are not modelled.
\<close>

definition round_half_even :: "rat \<Rightarrow> int" where
  "round_half_even y =
     (let f = \<lfloor>y\<rfloor>; r = y - of_int f
      in if r < 1 / 2 then f else if r > 1 / 2 then f + 1 else if even f then f else f + 1)"

fun exponent_search :: "nat \<Rightarrow> rat \<Rightarrow> int" where
  "exponent_search 0 x = - 1022"
| "exponent_search (Suc n) x =
     (if 2 powi (int (Suc n) - 1022) \<le> x then int (Suc n) - 1022 else exponent_search n x)"

definition exponent :: "rat \<Rightarrow> int" where
  "exponent x = exponent_search 2045 \<bar>x\<bar>"

definition ulp :: "rat \<Rightarrow> rat" where
  "ulp x = 2 powi (exponent x - 52)"

definition round_double :: "rat \<Rightarrow> rat" where
  "round_double x = of_int (round_half_even (x / ulp x)) * ulp x"

definition getSanitationOpacity :: "rat \<Rightarrow> rat" where
  "getSanitationOpacity percent =
     round_double (round_double (35 / 100)
       + round_double (round_double (percent / 100) * round_double (4 / 10)))"

subsection \<open>A scenario: the viewport over Sao Paulo\<close>

text \<open>
  Concrete values for the examples below. \<open>decimalNumber\<close> is \<open>Number\<close> on the values
  \<open>codarea\<close> takes in the boundary data, decimal numerals; it reads every other
  non-empty string as \<open>NaN\<close>. The state layer has the polygons of units 35 and 33, a
  marker without \<open>getBounds\<close>, a polygon whose \<open>getBounds\<close> throws and a polygon with a
  code outside the national enumeration.
\<close>

definition digit_of :: "char \<Rightarrow> nat option" where
  "digit_of = map_of
     [(CHR ''0'', 0), (CHR ''1'', 1), (CHR ''2'', 2), (CHR ''3'', 3), (CHR ''4'', 4),
      (CHR ''5'', 5), (CHR ''6'', 6), (CHR ''7'', 7), (CHR ''8'', 8), (CHR ''9'', 9)]"

fun parse_decimal :: "string \<Rightarrow> nat \<Rightarrow> nat option" where
  "parse_decimal [] acc = Some acc"
| "parse_decimal (c # cs) acc =
     (case digit_of c of None \<Rightarrow> None | Some d \<Rightarrow> parse_decimal cs (10 * acc + d))"

fun decimalNumber :: "arg \<Rightarrow> number option" where
  "decimalNumber (Str s) = map_option of_nat (parse_decimal s 0)"
| "decimalNumber (Number n) = Some (of_int n)"
| "decimalNumber Null = Some 0"
| "decimalNumber Undefined = None"

definition polygon :: "string \<Rightarrow> latLngBounds \<Rightarrow> layer" where
  "polygon code b =
     \<lparr> feature = Some \<lparr> properties = Some \<lparr> codarea = Str code \<rparr> \<rparr>,
       getBounds = Some (Returns (Some b)) \<rparr>"

definition saoPauloBox :: latLngBounds where
  "saoPauloBox = \<lparr> south = - 253 / 10, west = - 531 / 10, north = - 198 / 10, east = - 442 / 10 \<rparr>"

definition rioBox :: latLngBounds where
  "rioBox = \<lparr> south = - 234 / 10, west = - 449 / 10, north = - 208 / 10, east = - 409 / 10 \<rparr>"

definition markerLayer :: layer where
  "markerLayer =
     \<lparr> feature = Some \<lparr> properties = Some \<lparr> codarea = Str ''35'' \<rparr> \<rparr>, getBounds = None \<rparr>"

definition brokenLayer :: layer where
  "brokenLayer =
     \<lparr> feature = Some \<lparr> properties = Some \<lparr> codarea = Str ''35'' \<rparr> \<rparr>,
       getBounds = Some Throws \<rparr>"

definition stateLayers :: "layer list" where
  "stateLayers =
     [polygon ''35'' saoPauloBox, markerLayer, polygon ''33'' rioBox, brokenLayer,
      polygon ''99'' saoPauloBox]"

definition zoomedIn :: leafletMap where
  "zoomedIn = \<lparr> getZoom = 7,
                 mapBounds = \<lparr> south = - 25, west = - 49, north = - 22, east = - 45 \<rparr> \<rparr>"

definition zoomedOut :: leafletMap where
  "zoomedOut = \<lparr> getZoom = 4,
                  mapBounds = \<lparr> south = - 34, west = - 74, north = 6, east = - 34 \<rparr> \<rparr>"

definition exampleEnv :: env where
  "exampleEnv = \<lparr> toNumber = decimalNumber,
                   MAJOR_CITIES_BY_UF = [35 \<mapsto> [3550308, 3509502], 33 \<mapsto> [3304557]] \<rparr>"

definition dengueAlerts :: alertMap where
  "dengueAlerts = [3550308 \<mapsto> \<lparr> SE = 202540, nivel = Num 4 \<rparr>]"

definition afterZoomIn :: mapState where
  "afterZoomIn =
     \<lparr> mapObj = Some zoomedIn, geoLayer = Some stateLayers, currentDisease = ''dengue'',
       loadedMunicipioLayers = Map.empty, loadingStates = {35},
       municipioAlertCache = Map.empty, inFlight = [(35, ''dengue'')] \<rparr>"

definition afterLoad :: mapState where
  "afterLoad =
     \<lparr> mapObj = Some zoomedIn, geoLayer = Some stateLayers, currentDisease = ''dengue'',
       loadedMunicipioLayers =
         [35 \<mapsto> \<lparr> geometry = [3550308], alertsOf = dengueAlerts, requestedFor = ''dengue'' \<rparr>],
       loadingStates = {},
       municipioAlertCache = [35 \<mapsto> dengueAlerts], inFlight = [] \<rparr>"

text \<open>The units \<open>loadMunicipioLayer\<close> returns early on.\<close>

definition skips :: "env \<Rightarrow> number \<Rightarrow> mapState \<Rightarrow> bool" where
  "skips e u s \<longleftrightarrow>
     u \<in> dom (loadedMunicipioLayers s) \<or> u \<in> loadingStates s \<or> MAJOR_CITIES_BY_UF e u = None"

section \<open>Properties of the API service\<close>

subsection \<open>Cache keys\<close>

lemma join_Cons: "xs \<noteq> [] \<Longrightarrow> join sep (x # xs) = x @ sep @ join sep xs"
  by (cases xs) simp_all

lemma split_at_sep:
  assumes "x @ c # r = y @ c # r'" and "c \<notin> set x" and "c \<notin> set y"
  shows "x = y \<and> r = r'"
  using assms
proof (induction x arbitrary: y)
  case Nil
  then show ?case by (cases y) auto
next
  case (Cons a x)
  then show ?case by (cases y) auto
qed

lemma sep_free_neq: "c \<notin> set x \<Longrightarrow> x \<noteq> y @ c # r"
  by auto

lemma join_inj:
  assumes "xs \<noteq> []" and "ys \<noteq> []"
    and "\<forall>x \<in> set xs. c \<notin> set x" and "\<forall>y \<in> set ys. c \<notin> set y"
    and "join [c] xs = join [c] ys"
  shows "xs = ys"
  using assms
proof (induction xs arbitrary: ys)
  case Nil
  then show ?case by simp
next
  case (Cons x xs)
  from Cons.prems(2) obtain y ys' where ys: "ys = y # ys'" by (cases ys) auto
  show ?case
  proof (cases "xs = []")
    case True
    note xs_empty = this
    show ?thesis
    proof (cases "ys' = []")
      case True
      with xs_empty Cons.prems ys show ?thesis by simp
    next
      case False
      with xs_empty Cons.prems ys have eq: "x = y @ c # join [c] ys'"
        by (simp add: join_Cons)
      from Cons.prems(3) have cx: "c \<notin> set x" by simp
      from sep_free_neq [OF cx, of y "join [c] ys'"] eq show ?thesis by simp
    qed
  next
    case False
    note xs_nonempty = this
    show ?thesis
    proof (cases "ys' = []")
      case True
      with xs_nonempty Cons.prems ys have eq: "y = x @ c # join [c] xs"
        by (simp add: join_Cons)
      from Cons.prems(4) ys have cy: "c \<notin> set y" by simp
      from sep_free_neq [OF cy, of x "join [c] xs"] eq show ?thesis by simp
    next
      case False
      with xs_nonempty Cons.prems ys
      have eq: "x @ c # join [c] xs = y @ c # join [c] ys'"
        by (simp add: join_Cons)
      from Cons.prems(3) have cx: "c \<notin> set x" by simp
      from Cons.prems(4) ys have cy: "c \<notin> set y" by simp
      from split_at_sep [OF eq cx cy] have xy: "x = y" and rest: "join [c] xs = join [c] ys'"
        by simp_all
      from Cons.prems(3) have p3: "\<forall>x \<in> set xs. c \<notin> set x" by simp
      from Cons.prems(4) ys have p4: "\<forall>y \<in> set ys'. c \<notin> set y" by simp
      from Cons.IH [OF xs_nonempty False p3 p4 rest] xy ys show ?thesis by simp
    qed
  qed
qed

text \<open>
  C6, as amended. Equal component sequences always give equal keys. In the other
  direction the delimiter is not escaped and the components are rendered as strings, so
  the key determines the components only up to their renderings, and only when the
  renderings hold no delimiter: for two calls that each pass at least one component, no
  component's rendering containing \<open>|\<close>, the keys are equal if and only if the two
  sequences of renderings are equal.
\<close>

theorem cacheKey_eq_iff_renderings:
  assumes "args \<noteq> []" and "args' \<noteq> []"
    and "\<forall>a \<in> set args \<union> set args'. CHR ''|'' \<notin> set (toString a)"
  shows "(args = args' \<longrightarrow> cacheKey args = cacheKey args') \<and>
         (cacheKey args = cacheKey args' \<longleftrightarrow> map toString args = map toString args')"
proof -
  have "map toString args = map toString args'" if "cacheKey args = cacheKey args'"
  proof (rule join_inj [where c = "CHR ''|''"])
    show "map toString args \<noteq> []" using assms(1) by simp
    show "map toString args' \<noteq> []" using assms(2) by simp
    show "\<forall>x \<in> set (map toString args). CHR ''|'' \<notin> set x" using assms(3) by auto
    show "\<forall>y \<in> set (map toString args'). CHR ''|'' \<notin> set y" using assms(3) by auto
    show "join [CHR ''|''] (map toString args) = join [CHR ''|''] (map toString args')"
      using that by (simp add: cacheKey_def)
  qed
  then show ?thesis by (auto simp: cacheKey_def)
qed

theorem cacheKey_eq_iff_renderings_witness:
  "cacheKey [Str ''national'', Str ''dengue''] \<noteq> cacheKey [Str ''national'', Str ''zika''] \<and>
   cacheKey [Str ''disease'', Number 3550308, Str ''dengue'']
     = cacheKey [Str ''disease'', Str ''3550308'', Str ''dengue'']"
proof -
  have a: "cacheKey [Str ''national'', Str ''dengue''] \<noteq> cacheKey [Str ''national'', Str ''zika'']"
    using cacheKey_eq_iff_renderings
      [of "[Str ''national'', Str ''dengue'']" "[Str ''national'', Str ''zika'']"]
    by simp
  have r: "show_int 3550308 = ''3550308''"
    by (simp add: show_int_def show_nat.simps)
  have b: "cacheKey [Str ''disease'', Number 3550308, Str ''dengue'']
     = cacheKey [Str ''disease'', Str ''3550308'', Str ''dengue'']"
    using cacheKey_eq_iff_renderings
      [of "[Str ''disease'', Number 3550308, Str ''dengue'']"
          "[Str ''disease'', Str ''3550308'', Str ''dengue'']"] r
    by simp
  from a b show ?thesis by simp
qed

text \<open>
  C6, as stated, fails: a component that contains the delimiter yields the key of a
  longer component sequence, and a geocode passed as a number (as the capitals table has
  it) yields the key of the same geocode passed as a string (as a form control has it).
\<close>

theorem cacheKey_not_injective:
  "cacheKey [Str ''disease'', Str ''1|dengue''] = cacheKey [Str ''disease'', Str ''1'', Str ''dengue'']
   \<and> [Str ''disease'', Str ''1|dengue''] \<noteq> [Str ''disease'', Str ''1'', Str ''dengue'']
   \<and> cacheKey [Str ''disease'', Number 3550308, Str ''dengue'']
       = cacheKey [Str ''disease'', Str ''3550308'', Str ''dengue'']
   \<and> [Str ''disease'', Number 3550308, Str ''dengue'']
       \<noteq> [Str ''disease'', Str ''3550308'', Str ''dengue'']"
proof -
  have "show_int 3550308 = ''3550308''"
    by (simp add: show_int_def show_nat.simps)
  then show ?thesis by (simp add: cacheKey_def)
qed

subsection \<open>Alert colours\<close>





























subsection \<open>The request cache\<close>

lemma cachedFetch_unfold:
  "cachedFetch key fetcher cache =
     (case cache key of
        Some v \<Rightarrow> \<lparr> settled = Inr v, fetcher_called = False, cache_after = cache \<rparr>
      | None \<Rightarrow>
          (case fetcher cache of
             (Inl err, cache') \<Rightarrow>
               \<lparr> settled = Inl err, fetcher_called = True, cache_after = cache' \<rparr>
           | (Inr d, cache') \<Rightarrow>
               \<lparr> settled = Inr d, fetcher_called = True,
                 cache_after = cache'(key \<mapsto> d) \<rparr>))"
  by (simp add: cachedFetch_def cachedFetch_start_def cachedFetch_resume_def
      split: option.splits prod.splits sum.splits)

lemma cachedFetch_hit:
  "cache key = Some v \<Longrightarrow>
   cachedFetch key fetcher cache = \<lparr> settled = Inr v, fetcher_called = False, cache_after = cache \<rparr>"
  by (simp add: cachedFetch_unfold)

lemma turn_keeps_entries:
  assumes "entries s key = Some v"
  shows "\<exists>v'. entries (snd (turn_effect t s)) key = Some v'"
proof (cases t)
  case (Call i k)
  with assms show ?thesis by (simp add: cachedFetch_start_def split: option.splits)
next
  case (FetcherSettled i r)
  with assms show ?thesis
    by (cases r) (auto simp: cachedFetch_resume_def split: option.splits)
qed

lemma turns_keep_entries:
  assumes "entries s key = Some v"
  shows "\<exists>v'. entries (after_turns turns s) key = Some v'"
  using assms unfolding after_turns_def
proof (induction turns arbitrary: s v)
  case Nil
  then show ?case by simp
next
  case (Cons t turns)
  from turn_keeps_entries [OF Cons.prems, of t] obtain w
    where "entries (snd (turn_effect t s)) key = Some w" by blast
  from Cons.IH [OF this] show ?case by simp
qed

lemma turn_settled_alone:
  assumes "settled_alone key v s"
  shows "settled_alone key v (snd (turn_effect t s))"
proof (cases t)
  case (Call i k)
  with assms show ?thesis
    by (auto simp: settled_alone_def cachedFetch_start_def split: option.splits)
next
  case (FetcherSettled i r)
  show ?thesis
  proof (cases "map_of (suspended s) i")
    case None
    with assms FetcherSettled show ?thesis by simp
  next
    case (Some k)
    then have "(i, k) \<in> set (suspended s)" by (rule map_of_SomeD)
    with assms have ne: "k \<noteq> key" by (force simp: settled_alone_def)
    have sub: "snd ` set (filter (\<lambda>c. fst c \<noteq> i) (suspended s)) \<subseteq> snd ` set (suspended s)"
      by auto
    with assms ne Some FetcherSettled show ?thesis
      by (cases r) (auto simp: settled_alone_def cachedFetch_resume_def)
  qed
qed

lemma turns_settled_alone:
  assumes "settled_alone key v s"
  shows "settled_alone key v (after_turns turns s)"
  using assms unfolding after_turns_def
proof (induction turns arbitrary: s)
  case Nil
  then show ?case by simp
next
  case (Cons t turns)
  from Cons.IH [OF turn_settled_alone [OF Cons.prems, of t]] show ?case by simp
qed

lemma call_hit:
  "entries s key = Some v \<Longrightarrow> turn_effect (Call j key) s = (Returned (Inr v), s)"
  by (simp add: cachedFetch_start_def)

lemma call_miss:
  "entries s key = None \<Longrightarrow> fst (turn_effect (Call j key) s) = Suspended"
  by (simp add: cachedFetch_start_def)

text \<open>
  C5, as amended. Take a call suspended at its fetcher. If the fetcher fails, the call
  rejects and stores nothing: the cache is unchanged. A call made while its key has no
  entry calls its fetcher, so the next call with the key retries unless an overlapping
  call on the key has stored a result. If the fetcher succeeds, the call resolves with its
  result, and from then on, whatever turns follow, every call with the key returns the
  entry the cache holds, without calling its fetcher; that entry is the call's own result
  when no other call on the key was suspended at the time it was stored.
\<close>

theorem cachedFetch_overlap_policy:
  assumes "map_of (suspended s) i = Some key"
  shows
    "turn_effect (FetcherSettled i (Inl err)) s
       = (Returned (Inl err), s \<lparr> suspended := filter (\<lambda>c. fst c \<noteq> i) (suspended s) \<rparr>) \<and>
     (\<forall>s' j. entries s' key = None \<longrightarrow> fst (turn_effect (Call j key) s') = Suspended) \<and>
     (entries s key = None \<longrightarrow>
        (\<forall>j. fst (turn_effect (Call j key) (snd (turn_effect (FetcherSettled i (Inl err)) s)))
               = Suspended)) \<and>
     fst (turn_effect (FetcherSettled i (Inr v)) s) = Returned (Inr v) \<and>
     (\<forall>turns j. \<exists>v'.
        turn_effect (Call j key)
            (after_turns turns (snd (turn_effect (FetcherSettled i (Inr v)) s)))
          = (Returned (Inr v'),
             after_turns turns (snd (turn_effect (FetcherSettled i (Inr v)) s)))) \<and>
     (key \<notin> snd ` set (filter (\<lambda>c. fst c \<noteq> i) (suspended s)) \<longrightarrow>
        (\<forall>turns j.
           turn_effect (Call j key)
               (after_turns turns (snd (turn_effect (FetcherSettled i (Inr v)) s)))
             = (Returned (Inr v),
                after_turns turns (snd (turn_effect (FetcherSettled i (Inr v)) s)))))"
proof -
  define ok where "ok = snd (turn_effect (FetcherSettled i (Inr v)) s)"
  have fail: "turn_effect (FetcherSettled i (Inl err)) s
       = (Returned (Inl err), s \<lparr> suspended := filter (\<lambda>c. fst c \<noteq> i) (suspended s) \<rparr>)"
    using assms by (simp add: cachedFetch_resume_def)
  have miss: "\<forall>s' j. entries s' key = None \<longrightarrow> fst (turn_effect (Call j key) s') = Suspended"
    using call_miss by blast
  have retry: "entries s key = None \<longrightarrow>
        (\<forall>j. fst (turn_effect (Call j key) (snd (turn_effect (FetcherSettled i (Inl err)) s)))
               = Suspended)"
    unfolding fail by (simp add: cachedFetch_start_def)
  have res: "fst (turn_effect (FetcherSettled i (Inr v)) s) = Returned (Inr v)"
    using assms by (simp add: cachedFetch_resume_def)
  have stored: "entries ok key = Some v"
    using assms by (simp add: ok_def cachedFetch_resume_def)
  have susp: "suspended ok = filter (\<lambda>c. fst c \<noteq> i) (suspended s)"
    using assms by (simp add: ok_def cachedFetch_resume_def)
  have served: "\<exists>v'. turn_effect (Call j key) (after_turns turns ok)
      = (Returned (Inr v'), after_turns turns ok)" for turns j
  proof -
    from turns_keep_entries [OF stored, of turns] obtain v'
      where "entries (after_turns turns ok) key = Some v'" by blast
    from call_hit [OF this] show ?thesis by blast
  qed
  have same: "turn_effect (Call j key) (after_turns turns ok)
      = (Returned (Inr v), after_turns turns ok)"
    if "key \<notin> snd ` set (filter (\<lambda>c. fst c \<noteq> i) (suspended s))" for turns j
  proof -
    from stored that susp have "settled_alone key v ok" by (simp add: settled_alone_def)
    from turns_settled_alone [OF this, of turns]
    have "entries (after_turns turns ok) key = Some v" by (simp add: settled_alone_def)
    then show ?thesis by (rule call_hit)
  qed
  have served': "\<forall>turns j. \<exists>v'.
        turn_effect (Call j key)
            (after_turns turns (snd (turn_effect (FetcherSettled i (Inr v)) s)))
          = (Returned (Inr v'),
             after_turns turns (snd (turn_effect (FetcherSettled i (Inr v)) s)))"
    unfolding ok_def [symmetric] using served by (intro allI)
  have same': "key \<notin> snd ` set (filter (\<lambda>c. fst c \<noteq> i) (suspended s)) \<longrightarrow>
        (\<forall>turns j.
           turn_effect (Call j key)
               (after_turns turns (snd (turn_effect (FetcherSettled i (Inr v)) s)))
             = (Returned (Inr v),
                after_turns turns (snd (turn_effect (FetcherSettled i (Inr v)) s))))"
    unfolding ok_def [symmetric] using same by (intro impI allI)
  show ?thesis
    by (rule conjI [OF fail conjI [OF miss conjI [OF retry conjI [OF res conjI [OF served' same']]]]])
qed


theorem cachedFetch_overlap_policy_witness:
  "map_of (suspended (after_turns [Call 1 ''states''] (freshService :: string service))) 1
     = Some ''states'' \<and>
   entries (snd (turn_effect (FetcherSettled 1 (Inl (Failure ''Falha ao carregar estados'')))
      (after_turns [Call 1 ''states''] (freshService :: string service)))) = Map.empty \<and>
   fst (turn_effect (Call 2 ''states'')
      (snd (turn_effect (FetcherSettled 1 (Inl (Failure ''Falha ao carregar estados'')))
         (after_turns [Call 1 ''states''] (freshService :: string service))))) = Suspended \<and>
   fst (turn_effect (Call 4 ''states'')
      (after_turns [Call 3 ''brazil-geo'', FetcherSettled 3 (Inr ''BR'')]
         (snd (turn_effect (FetcherSettled 1 (Inr ''[SP, RJ]''))
            (after_turns [Call 1 ''states''] (freshService :: string service))))))
     = Returned (Inr ''[SP, RJ]'')"
proof -
  define s1 where "s1 = after_turns [Call 1 ''states''] (freshService :: string service)"
  have s1: "s1 = \<lparr> entries = Map.empty, suspended = [(1, ''states'')] \<rparr>"
    by (simp add: s1_def after_turns_def freshService_def cachedFetch_start_def)
  have h: "map_of (suspended s1) 1 = Some ''states''" by (simp add: s1)
  have absent: "entries s1 ''states'' = None" by (simp add: s1)
  have alone: "''states'' \<notin> snd ` set (filter (\<lambda>c. fst c \<noteq> 1) (suspended s1))"
    by (simp add: s1)
  note t = cachedFetch_overlap_policy [OF h, where err = "Failure ''Falha ao carregar estados''"
      and v = "''[SP, RJ]''"]
  have a: "entries (snd (turn_effect (FetcherSettled 1 (Inl (Failure ''Falha ao carregar estados'')))
      s1)) = Map.empty"
    unfolding t [THEN conjunct1] by (simp add: s1)
  have b: "fst (turn_effect (Call 2 ''states'')
      (snd (turn_effect (FetcherSettled 1 (Inl (Failure ''Falha ao carregar estados''))) s1)))
      = Suspended"
    by (rule t [THEN conjunct2, THEN conjunct2, THEN conjunct1, rule_format, OF absent])
  have c: "turn_effect (Call 4 ''states'')
      (after_turns [Call 3 ''brazil-geo'', FetcherSettled 3 (Inr ''BR'')]
         (snd (turn_effect (FetcherSettled 1 (Inr ''[SP, RJ]'')) s1)))
     = (Returned (Inr ''[SP, RJ]''),
        after_turns [Call 3 ''brazil-geo'', FetcherSettled 3 (Inr ''BR'')]
         (snd (turn_effect (FetcherSettled 1 (Inr ''[SP, RJ]'')) s1)))"
    by (rule t [THEN conjunct2, THEN conjunct2, THEN conjunct2, THEN conjunct2, THEN conjunct2,
          rule_format, OF alone])
  from h a b c show ?thesis unfolding s1_def by simp
qed

text \<open>
  C5, as stated, fails when two calls on one key overlap, as two selections of the same
  state in the tracker make them. Both miss. When both fetchers succeed, the second
  settlement replaces the entry of the first, and a later call returns another result than
  the first call stored. When one fails after the other has stored its result, the next
  call does not call its fetcher again.
\<close>

theorem cachedFetch_overlap_overwrites:
  "fst (turn_effect (FetcherSettled 1 (Inr ''[Campinas]''))
      (after_turns [Call 1 ''municipios-35'', Call 2 ''municipios-35'']
         (freshService :: string service)))
     = Returned (Inr ''[Campinas]'') \<and>
   fst (turn_effect (Call 3 ''municipios-35'')
      (after_turns
         [Call 1 ''municipios-35'', Call 2 ''municipios-35'',
          FetcherSettled 1 (Inr ''[Campinas]''), FetcherSettled 2 (Inr ''[Campinas, Santos]'')]
         (freshService :: string service)))
     = Returned (Inr ''[Campinas, Santos]'') \<and>
   fst (turn_effect (FetcherSettled 1 (Inl (Failure ''Falha ao carregar municipios'')))
      (after_turns
         [Call 1 ''municipios-35'', Call 2 ''municipios-35'',
          FetcherSettled 2 (Inr ''[Campinas]'')]
         (freshService :: string service)))
     = Returned (Inl (Failure ''Falha ao carregar municipios'')) \<and>
   fst (turn_effect (Call 3 ''municipios-35'')
      (after_turns
         [Call 1 ''municipios-35'', Call 2 ''municipios-35'',
          FetcherSettled 2 (Inr ''[Campinas]''),
          FetcherSettled 1 (Inl (Failure ''Falha ao carregar municipios''))]
         (freshService :: string service)))
     = Returned (Inr ''[Campinas]'')"
  by (simp add: after_turns_def freshService_def cachedFetch_start_def cachedFetch_resume_def)

subsection \<open>The national overview\<close>

lemma cacheKey_national_hd: "hd (cacheKey (Str ''national'' # args)) = CHR ''n''"
  by (cases args) (simp_all add: cacheKey_def)

lemma cacheKey_disease_hd: "hd (cacheKey (Str ''disease'' # args)) = CHR ''d''"
  by (cases args) (simp_all add: cacheKey_def)

lemma cache_ok_empty: "cache_ok Map.empty"
  by (simp add: cache_ok_def)

lemma cache_ok_series:
  assumes "cache_ok cache" and "hd key = CHR ''d''"
  shows "cache_ok (cache(key \<mapsto> Series d))"
  using assms by (auto simp: cache_ok_def)

lemma cache_ok_overview:
  assumes "cache_ok cache" and "hd key = CHR ''n''" and "map entry_capital es = capitals"
  shows "cache_ok (cache(key \<mapsto> Overview es))"
  using assms by (auto simp: cache_ok_def)

lemma cache_ok_add:
  assumes "cache_ok a" and "cache_ok b"
  shows "cache_ok (a ++ (b |` S))"
  unfolding cache_ok_def
proof (intro allI impI)
  fix key v
  assume "(a ++ (b |` S)) key = Some v"
  then have "a key = Some v \<or> b key = Some v"
    by (auto simp: map_add_def restrict_map_def split: option.splits if_splits)
  with assms show "(hd key = CHR ''n'' \<longrightarrow> (\<exists>es. v = Overview es \<and> map entry_capital es = capitals)) \<and>
        (hd key = CHR ''d'' \<longrightarrow> (\<exists>d. v = Series d))"
    unfolding cache_ok_def by blast
qed

lemma fetchDiseaseData_cache_ok:
  assumes "cache_ok cache"
  shows "cache_ok (cache_after (fetchDiseaseData net g d ws we ys ye cache))"
proof -
  define key where "key = cacheKey [Str ''disease'', g, or_default d (Str ''dengue''),
      or_default ws (Number 1), or_default we (Number 52), or_default ys (Number 2025),
      or_default ye (Number 2025)]"
  have hd: "hd key = CHR ''d''" unfolding key_def by (rule cacheKey_disease_hd)
  show ?thesis
  proof (cases "cache key")
    case (Some v)
    with assms show ?thesis
      by (simp add: fetchDiseaseData_def Let_def key_def [symmetric] cachedFetch_hit)
  next
    case None
    with assms cache_ok_series [OF assms hd] show ?thesis
      by (simp add: fetchDiseaseData_def Let_def key_def [symmetric] cachedFetch_unfold
          network_fetcher_def split: sum.splits)
  qed
qed

lemma store_results_cache_ok:
  assumes "cache_ok cache0" and "cache_ok cache"
  shows "cache_ok (store_results net now d cache0 caps cache)"
  using assms(2)
proof (induction caps arbitrary: cache)
  case Nil
  then show ?case by simp
next
  case (Cons cap caps)
  have "cache_ok (cache_after (capital_call net now d cache0 cap))"
    unfolding capital_call_def by (rule fetchDiseaseData_cache_ok [OF assms(1)])
  from cache_ok_add [OF Cons.prems this] have
    "cache_ok (cache ++ (cache_after (capital_call net now d cache0 cap) |` (- dom cache0)))" .
  from Cons.IH [OF this] show ?case by simp
qed

lemma capital_result_entry:
  "\<exists>e. capital_result net now d cache cap = Fulfilled_with e \<and> entry_capital e = cap \<and>
       (data e = [] \<longrightarrow> latest e = None) \<and>
       (data e \<noteq> [] \<longrightarrow> latest e = Some (last (data e)))"
  by (auto simp: capital_result_def with_data_def entry_capital_def
      split: sum.splits cached.splits)

lemma fulfilled_values_all:
  assumes "\<And>x. \<exists>e. f x = Fulfilled_with e \<and> entry_capital e = x"
  shows "map entry_capital (fulfilled_values (map f xs)) = xs"
proof (induction xs)
  case Nil
  then show ?case by simp
next
  case (Cons x xs)
  from assms [of x] obtain e where "f x = Fulfilled_with e" and "entry_capital e = x" by blast
  with Cons show ?case by simp
qed

lemma overview_entries:
  "map entry_capital (fulfilled_values (map (capital_result net now d cache) capitals)) = capitals"
proof (rule fulfilled_values_all)
  fix x
  from capital_result_entry [of net now d cache x]
  show "\<exists>e. capital_result net now d cache x = Fulfilled_with e \<and> entry_capital e = x"
    by blast
qed

lemma capitals_length: "length capitals = 27"
  by (simp add: capitals_def)

lemma fetchNationalOverview_on_cache_ok:
  assumes "cache_ok cache"
  shows "(\<exists>es. settled (fetchNationalOverview net now disease cache) = Inr (Overview es) \<and>
            map entry_capital es = capitals \<and> length es = 27) \<and>
         cache_ok (cache_after (fetchNationalOverview net now disease cache)) \<and>
         (cache (cacheKey [Str ''national'', or_default disease (Str ''dengue'')]) = None \<longrightarrow>
            settled (fetchNationalOverview net now disease cache)
              = Inr (Overview (fulfilled_values
                  (map (capital_result net now (or_default disease (Str ''dengue'')) cache)
                     capitals)))) \<and>
         (\<forall>d cap.
            (\<forall>err. settled (capital_call net now d cache cap) = Inl err \<longrightarrow>
               capital_result net now d cache cap = Fulfilled_with (with_data cap [] None)) \<and>
            (settled (capital_call net now d cache cap) = Inr (Series []) \<longrightarrow>
               capital_result net now d cache cap = Fulfilled_with (with_data cap [] None)))"
proof -
  define d where "d = or_default disease (Str ''dengue'')"
  define key where "key = cacheKey [Str ''national'', d]"
  define es where "es = fulfilled_values (map (capital_result net now d cache) capitals)"
  have hd: "hd key = CHR ''n''" unfolding key_def by (rule cacheKey_national_hd)
  have es: "map entry_capital es = capitals" unfolding es_def by (rule overview_entries)
  have call: "fetchNationalOverview net now disease cache
      = cachedFetch key (overview_fetcher net now d) cache"
    by (simp add: fetchNationalOverview_def Let_def d_def key_def)
  have miss: "cache key = None \<Longrightarrow> fetchNationalOverview net now disease cache
      = \<lparr> settled = Inr (Overview es), fetcher_called = True,
          cache_after = (store_results net now d cache capitals cache)(key \<mapsto> Overview es) \<rparr>"
    by (simp add: call cachedFetch_unfold overview_fetcher_def Let_def es_def)
  have len: "length xs = 27" if "map entry_capital xs = capitals" for xs
    using that capitals_length by (metis length_map)
  have one: "\<exists>es. settled (fetchNationalOverview net now disease cache) = Inr (Overview es) \<and>
            map entry_capital es = capitals \<and> length es = 27"
  proof (cases "cache key")
    case None
    from miss [OF None] es len [OF es] show ?thesis by simp
  next
    case (Some v)
    with assms hd obtain xs where "v = Overview xs" and "map entry_capital xs = capitals"
      unfolding cache_ok_def by blast
    with Some len show ?thesis by (simp add: call cachedFetch_hit)
  qed
  have two: "cache_ok (cache_after (fetchNationalOverview net now disease cache))"
  proof (cases "cache key")
    case None
    have "cache_ok (store_results net now d cache capitals cache)"
      by (rule store_results_cache_ok [OF assms assms])
    from cache_ok_overview [OF this hd es] miss [OF None] show ?thesis by simp
  next
    case (Some v)
    with assms show ?thesis by (simp add: call cachedFetch_hit)
  qed
  have three: "cache (cacheKey [Str ''national'', or_default disease (Str ''dengue'')]) = None \<longrightarrow>
            settled (fetchNationalOverview net now disease cache)
              = Inr (Overview (fulfilled_values
                  (map (capital_result net now (or_default disease (Str ''dengue'')) cache)
                     capitals)))"
    using miss by (simp add: key_def d_def es_def)
  have four: "\<forall>d cap.
            (\<forall>err. settled (capital_call net now d cache cap) = Inl err \<longrightarrow>
               capital_result net now d cache cap = Fulfilled_with (with_data cap [] None)) \<and>
            (settled (capital_call net now d cache cap) = Inr (Series []) \<longrightarrow>
               capital_result net now d cache cap = Fulfilled_with (with_data cap [] None))"
    by (simp add: capital_result_def)
  from one two three four show ?thesis by (intro conjI)
qed

lemma cache_ok_document:
  assumes "cache_ok cache" and "hd key \<noteq> CHR ''n''" and "hd key \<noteq> CHR ''d''"
  shows "cache_ok (cache(key \<mapsto> v))"
  using assms by (auto simp: cache_ok_def)

lemma document_call_cache_ok:
  assumes "cache_ok cache" and "hd key \<noteq> CHR ''n''" and "hd key \<noteq> CHR ''d''"
  shows "cache_ok (cache_after (cachedFetch key (network_fetcher r) cache))"
proof (cases "cache key")
  case (Some v)
  with assms(1) show ?thesis by (simp add: cachedFetch_hit)
next
  case None
  show ?thesis
  proof (cases r)
    case (Inl err)
    with None assms(1) show ?thesis by (simp add: cachedFetch_unfold network_fetcher_def)
  next
    case (Inr v)
    with None cache_ok_document [OF assms, of v] show ?thesis
      by (simp add: cachedFetch_unfold network_fetcher_def)
  qed
qed

lemma after_call_cache_ok:
  assumes "cache_ok cache"
  shows "cache_ok (after_call c cache)"
proof (cases c)
  case (FetchStates r)
  have "cache_ok (cache_after (cachedFetch ''states'' (network_fetcher (document r)) cache))"
    by (rule document_call_cache_ok [OF assms]) simp_all
  with FetchStates show ?thesis by (simp add: fetchStates_def)
next
  case (FetchMunicipios r ufId)
  have "cache_ok (cache_after (cachedFetch (''municipios-'' @ template ufId)
      (network_fetcher (document r)) cache))"
    by (rule document_call_cache_ok [OF assms]) simp_all
  with FetchMunicipios show ?thesis by (simp add: fetchMunicipios_def)
next
  case (FetchBrazilGeoJSON r)
  have "cache_ok (cache_after (cachedFetch ''brazil-geo'' (network_fetcher (document r)) cache))"
    by (rule document_call_cache_ok [OF assms]) simp_all
  with FetchBrazilGeoJSON show ?thesis by (simp add: fetchBrazilGeoJSON_def)
next
  case (FetchDiseaseData net g d ws we ys ye)
  with fetchDiseaseData_cache_ok [OF assms] show ?thesis by simp
next
  case (FetchNationalOverview net now d)
  with fetchNationalOverview_on_cache_ok [OF assms, of net now d] show ?thesis by simp
qed

lemma fold_after_call_cache_ok:
  "cache_ok cache \<Longrightarrow> cache_ok (fold after_call calls cache)"
  by (induction calls arbitrary: cache) (simp_all add: after_call_cache_ok)

lemma module_cache_ok: "cache_ok (module_cache calls)"
  unfolding module_cache_def by (rule fold_after_call_cache_ok [OF cache_ok_empty])

text \<open>
  C10. For every disease argument, network and clock, and whatever calls of the
  service came before, \<open>fetchNationalOverview\<close> resolves with an overview that has
  exactly one entry per capital of the 27-capital table, in the table's order. When the
  overview is not cached, its entries are the values of the per-capital calls, none of
  which rejects: a capital whose disease fetch fails appears with an empty series and
  \<open>latest = null\<close>, and one whose fetch resolves with no record appears with
  \<open>latest = null\<close>.
\<close>

theorem fetchNationalOverview_resolves:
  "(\<exists>es. settled (fetchNationalOverview net now disease (module_cache calls)) = Inr (Overview es) \<and>
         map entry_capital es = capitals \<and> length es = 27) \<and>
   (module_cache calls (cacheKey [Str ''national'', or_default disease (Str ''dengue'')]) = None \<longrightarrow>
      settled (fetchNationalOverview net now disease (module_cache calls))
        = Inr (Overview (fulfilled_values
            (map (capital_result net now (or_default disease (Str ''dengue'')) (module_cache calls))
               capitals)))) \<and>
   (\<forall>d cap.
      (\<forall>err. settled (capital_call net now d (module_cache calls) cap) = Inl err \<longrightarrow>
         capital_result net now d (module_cache calls) cap
           = Fulfilled_with (with_data cap [] None)) \<and>
      (settled (capital_call net now d (module_cache calls) cap) = Inr (Series []) \<longrightarrow>
         capital_result net now d (module_cache calls) cap
           = Fulfilled_with (with_data cap [] None)))"
proof -
  note t = fetchNationalOverview_on_cache_ok [where cache = "module_cache calls" and net = net
      and now = now and disease = disease, OF module_cache_ok]
  from t [THEN conjunct1] t [THEN conjunct2, THEN conjunct2] show ?thesis
    by (rule conjI)
qed

lemma example_weeks: "currentEW exampleClock = 40" "startEW exampleClock = 36"
  by (simp_all add: currentEW_def startEW_def exampleClock_def)

lemma example_sp:
  "capital_result exampleNetwork exampleClock (Str ''dengue'') Map.empty
      \<lparr> name = ''Sao Paulo'', geocode = 3550308, uf = ''SP'' \<rparr>
     = Fulfilled_with
         \<lparr> name = ''Sao Paulo'', geocode = 3550308, uf = ''SP'',
           data = [\<lparr> SE = 202539, nivel = Num 1 \<rparr>, \<lparr> SE = 202540, nivel = Num 2 \<rparr>],
           latest = Some \<lparr> SE = 202540, nivel = Num 2 \<rparr> \<rparr>"
  by (simp add: capital_result_def capital_call_def fetchDiseaseData_def or_default_def
      cachedFetch_unfold network_fetcher_def exampleNetwork_def with_data_def)

lemma example_bh:
  "settled (capital_call exampleNetwork exampleClock (Str ''dengue'') Map.empty
      \<lparr> name = ''Belo Horizonte'', geocode = 3106200, uf = ''MG'' \<rparr>)
     = Inl (Failure ''Falha ao carregar dados de dengue'')"
  by (simp add: capital_call_def fetchDiseaseData_def or_default_def
      cachedFetch_unfold network_fetcher_def exampleNetwork_def)

lemma example_rj:
  "settled (capital_call exampleNetwork exampleClock (Str ''dengue'') Map.empty
      \<lparr> name = ''Rio de Janeiro'', geocode = 3304557, uf = ''RJ'' \<rparr>)
     = Inr (Series [])"
  by (simp add: capital_call_def fetchDiseaseData_def or_default_def
      cachedFetch_unfold network_fetcher_def exampleNetwork_def)

theorem fetchNationalOverview_resolves_witness:
  "module_cache [] = Map.empty \<and>
   (\<exists>es. settled (fetchNationalOverview exampleNetwork exampleClock (Str ''dengue'') Map.empty)
            = Inr (Overview es) \<and>
          map entry_capital es = capitals \<and> length es = 27) \<and>
   capital_result exampleNetwork exampleClock (Str ''dengue'') Map.empty
      \<lparr> name = ''Belo Horizonte'', geocode = 3106200, uf = ''MG'' \<rparr>
     = Fulfilled_with
         \<lparr> name = ''Belo Horizonte'', geocode = 3106200, uf = ''MG'', data = [], latest = None \<rparr> \<and>
   capital_result exampleNetwork exampleClock (Str ''dengue'') Map.empty
      \<lparr> name = ''Rio de Janeiro'', geocode = 3304557, uf = ''RJ'' \<rparr>
     = Fulfilled_with
         \<lparr> name = ''Rio de Janeiro'', geocode = 3304557, uf = ''RJ'', data = [], latest = None \<rparr> \<and>
   capital_result exampleNetwork exampleClock (Str ''dengue'') Map.empty
      \<lparr> name = ''Sao Paulo'', geocode = 3550308, uf = ''SP'' \<rparr>
     = Fulfilled_with
         \<lparr> name = ''Sao Paulo'', geocode = 3550308, uf = ''SP'',
           data = [\<lparr> SE = 202539, nivel = Num 1 \<rparr>, \<lparr> SE = 202540, nivel = Num 2 \<rparr>],
           latest = Some \<lparr> SE = 202540, nivel = Num 2 \<rparr> \<rparr>"
proof -
  have empty: "module_cache [] = Map.empty" by (simp add: module_cache_def)
  note t = fetchNationalOverview_resolves [where net = exampleNetwork and now = exampleClock
      and disease = "Str ''dengue''" and calls = "[]", unfolded empty]
  note per = t [THEN conjunct2, THEN conjunct2, rule_format]
  have bh: "capital_result exampleNetwork exampleClock (Str ''dengue'') Map.empty
      \<lparr> name = ''Belo Horizonte'', geocode = 3106200, uf = ''MG'' \<rparr>
     = Fulfilled_with (with_data \<lparr> name = ''Belo Horizonte'', geocode = 3106200, uf = ''MG'' \<rparr> [] None)"
    by (rule per [THEN conjunct1, rule_format, OF example_bh])
  have rj: "capital_result exampleNetwork exampleClock (Str ''dengue'') Map.empty
      \<lparr> name = ''Rio de Janeiro'', geocode = 3304557, uf = ''RJ'' \<rparr>
     = Fulfilled_with (with_data \<lparr> name = ''Rio de Janeiro'', geocode = 3304557, uf = ''RJ'' \<rparr> [] None)"
    by (rule per [THEN conjunct2, rule_format, OF example_rj])
  from empty t [THEN conjunct1] bh rj example_sp show ?thesis
    by (simp add: with_data_def)
qed

section \<open>Properties of the map component\<close>

subsection \<open>Visible units\<close>

lemma eachLayer_concat:
  "eachLayer N b ls visible = visible @ concat (map (visit_layer N b) ls)"
  by (induction ls arbitrary: visible) simp_all

lemma getVisibleUFs_Some:
  "getVisibleUFs N b (Some ls) = concat (map (visit_layer N b) ls)"
  by (simp add: getVisibleUFs_def eachLayer_concat)

lemma visit_layer_cases:
  assumes "u \<in> set (visit_layer N b l)"
  shows "u \<in> set UF_IDS \<and>
         (\<exists>f p lb. feature l = Some f \<and> getBounds l = Some (Returns (Some lb)) \<and>
            intersects b (Some lb) = Inr True \<and> properties f = Some p \<and>
            N (codarea p) = Some u)"
proof -
  from assms obtain f where f: "feature l = Some f"
    by (cases "feature l") (auto simp: visit_layer_def)
  from assms f obtain gb where gb: "getBounds l = Some gb"
    by (cases "getBounds l") (auto simp: visit_layer_def)
  from assms f gb have tb: "try_body N b f gb = Inr (Some u)"
    by (cases "try_body N b f gb") (auto simp: visit_layer_def split: option.splits)
  from tb obtain lbo where ret: "gb = Returns lbo"
    by (cases gb) (auto simp: try_body_def)
  from tb ret obtain lb where lb: "lbo = Some lb"
    by (cases lbo) (auto simp: try_body_def intersects_def)
  from tb ret lb have hit: "intersects b (Some lb) = Inr True"
    by (auto simp: try_body_def split: sum.splits if_splits)
  from tb ret lb hit obtain p where p: "properties f = Some p"
    by (cases "properties f") (auto simp: try_body_def)
  from tb ret lb hit p have n: "N (codarea p) = Some u" and uf: "u \<in> set UF_IDS"
    by (auto simp: try_body_def split: option.splits if_splits)
  from f gb ret lb hit p n uf show ?thesis by simp
qed

lemma visit_layer_skip:
  assumes "\<not> has_valid_bounds l \<or> \<not> has_feature_data l"
  shows "visit_layer N b l = []"
  using assms
  by (auto simp: visit_layer_def try_body_def intersects_def has_valid_bounds_def
      has_feature_data_def
      split: option.splits getBounds_method.splits sum.splits if_splits)

text \<open>
  C9. For every viewport and every collection of drawn state layers, \<open>getVisibleUFs\<close>
  returns only codes of the national enumeration \<open>UF_IDS\<close>, which has 27 distinct
  codes. Every returned code is the code of a drawn layer whose bounding box intersects
  the viewport. A layer without a usable bounding box (no feature, no \<open>getBounds\<close>, a
  \<open>getBounds\<close> that throws or returns bounds without corners) or without feature data is
  skipped: the result is the same as without that layer, and the function, which is
  total, raises nothing.
\<close>

theorem getVisibleUFs_sound:
  "set (getVisibleUFs N b g) \<subseteq> set UF_IDS \<and>
   length UF_IDS = 27 \<and> distinct UF_IDS \<and>
   (\<forall>u \<in> set (getVisibleUFs N b g).
      \<exists>layers l f p lb. g = Some layers \<and> l \<in> set layers \<and>
        feature l = Some f \<and> getBounds l = Some (Returns (Some lb)) \<and>
        intersects b (Some lb) = Inr True \<and>
        properties f = Some p \<and> N (codarea p) = Some u) \<and>
   (\<forall>ls l rs. \<not> has_valid_bounds l \<or> \<not> has_feature_data l \<longrightarrow>
      getVisibleUFs N b (Some (ls @ l # rs)) = getVisibleUFs N b (Some (ls @ rs)))"
proof -
  have sub: "set (getVisibleUFs N b g) \<subseteq> set UF_IDS"
  proof (cases g)
    case None
    then show ?thesis by (simp add: getVisibleUFs_def)
  next
    case (Some ls)
    then show ?thesis using visit_layer_cases by (fastforce simp: getVisibleUFs_Some)
  qed
  have len: "length UF_IDS = 27" by (simp add: UF_IDS_def)
  have dis: "distinct UF_IDS" by (simp add: UF_IDS_def)
  have prov: "\<exists>layers l f p lb. g = Some layers \<and> l \<in> set layers \<and>
        feature l = Some f \<and> getBounds l = Some (Returns (Some lb)) \<and>
        intersects b (Some lb) = Inr True \<and>
        properties f = Some p \<and> N (codarea p) = Some u"
    if u: "u \<in> set (getVisibleUFs N b g)" for u
  proof (cases g)
    case None
    with u show ?thesis by (simp add: getVisibleUFs_def)
  next
    case (Some ls)
    with u obtain l where l: "l \<in> set ls" and ul: "u \<in> set (visit_layer N b l)"
      by (auto simp: getVisibleUFs_Some)
    from visit_layer_cases [OF ul] l Some show ?thesis by blast
  qed
  have skip: "getVisibleUFs N b (Some (ls @ l # rs)) = getVisibleUFs N b (Some (ls @ rs))"
    if "\<not> has_valid_bounds l \<or> \<not> has_feature_data l" for ls l rs
    using visit_layer_skip [OF that] by (simp add: getVisibleUFs_Some)
  show ?thesis
  proof (intro conjI ballI allI impI)
    show "set (getVisibleUFs N b g) \<subseteq> set UF_IDS" by (rule sub)
    show "length UF_IDS = 27" by (rule len)
    show "distinct UF_IDS" by (rule dis)
  next
    fix u assume "u \<in> set (getVisibleUFs N b g)"
    then show "\<exists>layers l f p lb. g = Some layers \<and> l \<in> set layers \<and>
        feature l = Some f \<and> getBounds l = Some (Returns (Some lb)) \<and>
        intersects b (Some lb) = Inr True \<and>
        properties f = Some p \<and> N (codarea p) = Some u"
      by (rule prov)
  next
    fix ls l rs assume "\<not> has_valid_bounds l \<or> \<not> has_feature_data l"
    then show "getVisibleUFs N b (Some (ls @ l # rs)) = getVisibleUFs N b (Some (ls @ rs))"
      by (rule skip)
  qed
qed

lemma visible_example:
  "getVisibleUFs decimalNumber (mapBounds zoomedIn) (Some stateLayers) = [35]"
  by (simp add: getVisibleUFs_def visit_layer_def try_body_def intersects_def stateLayers_def
      markerLayer_def brokenLayer_def polygon_def saoPauloBox_def rioBox_def zoomedIn_def
      digit_of_def UF_IDS_def)

lemma zoom_examples:
  "getZoom zoomedIn \<ge> MUNICIPIO_ZOOM_THRESHOLD"
  "\<not> getZoom zoomedOut \<ge> MUNICIPIO_ZOOM_THRESHOLD"
  by (simp_all add: zoomedIn_def zoomedOut_def MUNICIPIO_ZOOM_THRESHOLD_def)

theorem getVisibleUFs_sound_witness:
  "getVisibleUFs decimalNumber (mapBounds zoomedIn) (Some stateLayers) = [35] \<and>
   set (getVisibleUFs decimalNumber (mapBounds zoomedIn) (Some stateLayers)) \<subseteq> set UF_IDS \<and>
   \<not> has_valid_bounds markerLayer \<and>
   getVisibleUFs decimalNumber (mapBounds zoomedIn)
      (Some ([polygon ''35'' saoPauloBox] @ markerLayer # [polygon ''33'' rioBox]))
     = getVisibleUFs decimalNumber (mapBounds zoomedIn)
         (Some ([polygon ''35'' saoPauloBox] @ [polygon ''33'' rioBox]))"
proof -
  note t = getVisibleUFs_sound [of decimalNumber "mapBounds zoomedIn" "Some stateLayers"]
  have sub: "set (getVisibleUFs decimalNumber (mapBounds zoomedIn) (Some stateLayers))
      \<subseteq> set UF_IDS"
    by (rule t [THEN conjunct1])
  have nv: "\<not> has_valid_bounds markerLayer"
    by (simp add: has_valid_bounds_def markerLayer_def)
  note skip = t [THEN conjunct2, THEN conjunct2, THEN conjunct2, THEN conjunct2, rule_format,
      of markerLayer "[polygon ''35'' saoPauloBox]" "[polygon ''33'' rioBox]"]
  from visible_example sub nv skip [OF disjI1 [OF nv]] show ?thesis by simp
qed

subsection \<open>Loaded and loading units\<close>

lemma loadMunicipioLayer_disjoint:
  assumes "dom (loadedMunicipioLayers s) \<inter> loadingStates s = {}"
  shows "dom (loadedMunicipioLayers (loadMunicipioLayer e u s))
           \<inter> loadingStates (loadMunicipioLayer e u s) = {}"
  using assms by (auto simp: loadMunicipioLayer_def)

lemma fold_loadMunicipioLayer_disjoint:
  assumes "dom (loadedMunicipioLayers s) \<inter> loadingStates s = {}"
  shows "dom (loadedMunicipioLayers (fold (loadMunicipioLayer e) us s))
           \<inter> loadingStates (fold (loadMunicipioLayer e) us s) = {}"
  using assms
proof (induction us arbitrary: s)
  case Nil
  then show ?case by simp
next
  case (Cons u us)
  from Cons.IH [OF loadMunicipioLayer_disjoint [OF Cons.prems]] show ?case by simp
qed

lemma handleZoomChange_disjoint:
  assumes "dom (loadedMunicipioLayers s) \<inter> loadingStates s = {}"
  shows "dom (loadedMunicipioLayers (handleZoomChange e m s))
           \<inter> loadingStates (handleZoomChange e m s) = {}"
proof (cases "getZoom m \<ge> MUNICIPIO_ZOOM_THRESHOLD")
  case True
  with fold_loadMunicipioLayer_disjoint [OF assms] show ?thesis
    by (simp add: handleZoomChange_def)
next
  case False
  then show ?thesis by (simp add: handleZoomChange_def removeMunicipioLayers_def)
qed

lemma setMapDisease_disjoint:
  "dom (loadedMunicipioLayers (setMapDisease e d s))
     \<inter> loadingStates (setMapDisease e d s) = {}"
proof -
  define s1 where "s1 = s \<lparr> currentDisease := d,
                   municipioAlertCache :=
                     (\<lambda>ufId. if ufId \<in> dom (loadedMunicipioLayers s) then None
                             else municipioAlertCache s ufId),
                   loadedMunicipioLayers := Map.empty \<rparr>"
  have d1: "dom (loadedMunicipioLayers s1) \<inter> loadingStates s1 = {}"
    by (simp add: s1_def)
  have eq: "setMapDisease e d s =
      (case mapObj s1 of None \<Rightarrow> s1
       | Some m \<Rightarrow> if getZoom m \<ge> MUNICIPIO_ZOOM_THRESHOLD then handleZoomChange e m s1 else s1)"
    unfolding setMapDisease_def s1_def Let_def by (rule refl)
  show ?thesis
  proof (cases "mapObj s1")
    case None
    with eq d1 show ?thesis by simp
  next
    case (Some m)
    with eq d1 handleZoomChange_disjoint [OF d1, of e m] show ?thesis by simp
  qed
qed

lemma resume_disjoint:
  assumes "dom (loadedMunicipioLayers s) \<inter> loadingStates s = {}"
  shows "dom (loadedMunicipioLayers (loadMunicipioLayer_resume u d r s))
           \<inter> loadingStates (loadMunicipioLayer_resume u d r s) = {}"
  using assms
  by (cases r) (auto simp: loadMunicipioLayer_resume_def Let_def split: sum.splits)

lemma settle_disjoint:
  assumes "dom (loadedMunicipioLayers s) \<inter> loadingStates s = {}"
  shows "dom (loadedMunicipioLayers (settle u r s)) \<inter> loadingStates (settle u r s) = {}"
proof (cases "find (\<lambda>c. fst c = u) (inFlight s)")
  case None
  with assms show ?thesis by (simp add: settle_def)
next
  case (Some c)
  have "dom (loadedMunicipioLayers (s \<lparr> inFlight := remove1 c (inFlight s) \<rparr>))
          \<inter> loadingStates (s \<lparr> inFlight := remove1 c (inFlight s) \<rparr>) = {}"
    using assms by simp
  from resume_disjoint [OF this] Some show ?thesis by (simp add: settle_def)
qed

lemma step_disjoint:
  assumes "dom (loadedMunicipioLayers s) \<inter> loadingStates s = {}"
  shows "dom (loadedMunicipioLayers (step e ev s)) \<inter> loadingStates (step e ev s) = {}"
proof (cases ev)
  case (ViewportChange m)
  have "dom (loadedMunicipioLayers (s \<lparr> mapObj := Some m \<rparr>))
          \<inter> loadingStates (s \<lparr> mapObj := Some m \<rparr>) = {}"
    using assms by simp
  from handleZoomChange_disjoint [OF this] ViewportChange show ?thesis by simp
next
  case (DiseaseSelected d)
  then show ?thesis by (simp add: setMapDisease_disjoint)
next
  case (StateLayerBuilt ls)
  with assms show ?thesis by simp
next
  case (FetchesSettled u r)
  with settle_disjoint [OF assms] show ?thesis by simp
qed

lemma run_disjoint:
  assumes "dom (loadedMunicipioLayers s) \<inter> loadingStates s = {}"
  shows "dom (loadedMunicipioLayers (run e evs s)) \<inter> loadingStates (run e evs s) = {}"
  using assms unfolding run_def
proof (induction evs arbitrary: s)
  case Nil
  then show ?case by simp
next
  case (Cons ev evs)
  from Cons.IH [OF step_disjoint [OF Cons.prems]] show ?case by simp
qed

text \<open>
  C2. After every sequence of event-loop turns from the initial state, no unit is both in
  \<open>loadedMunicipioLayers\<close> and in \<open>loadingStates\<close>.
\<close>

theorem loaded_loading_disjoint:
  "dom (loadedMunicipioLayers (run e evs initialState))
     \<inter> loadingStates (run e evs initialState) = {}"
proof -
  have "dom (loadedMunicipioLayers initialState) \<inter> loadingStates initialState = {}"
    by (simp add: initialState_def)
  then show ?thesis by (rule run_disjoint)
qed

subsection \<open>Repeated visibility evaluation\<close>

lemma skips_unchanged: "skips e u s \<Longrightarrow> loadMunicipioLayer e u s = s"
  by (auto simp: skips_def loadMunicipioLayer_def)

lemma skips_after: "skips e u (loadMunicipioLayer e u s)"
  by (auto simp: skips_def loadMunicipioLayer_def)

lemma skips_mono: "skips e u s \<Longrightarrow> skips e u (loadMunicipioLayer e v s)"
  by (auto simp: skips_def loadMunicipioLayer_def)

lemma skips_fold_mono: "skips e u s \<Longrightarrow> skips e u (fold (loadMunicipioLayer e) vs s)"
  by (induction vs arbitrary: s) (simp_all add: skips_mono)

lemma skips_after_fold:
  "u \<in> set vs \<Longrightarrow> skips e u (fold (loadMunicipioLayer e) vs s)"
proof (induction vs arbitrary: s)
  case Nil
  then show ?case by simp
next
  case (Cons v vs)
  show ?case
  proof (cases "u = v")
    case True
    then show ?thesis using skips_fold_mono [OF skips_after] by simp
  next
    case False
    with Cons show ?thesis by simp
  qed
qed

lemma fold_all_skipped:
  "(\<And>u. u \<in> set vs \<Longrightarrow> skips e u s) \<Longrightarrow> fold (loadMunicipioLayer e) vs s = s"
  by (induction vs) (simp_all add: skips_unchanged)

lemma geoLayer_loadMunicipioLayer [simp]:
  "geoLayer (loadMunicipioLayer e u s) = geoLayer s"
  by (simp add: loadMunicipioLayer_def)

lemma geoLayer_fold [simp]:
  "geoLayer (fold (loadMunicipioLayer e) vs s) = geoLayer s"
  by (induction vs arbitrary: s) simp_all

lemma handleZoomChange_idem:
  "handleZoomChange e m (handleZoomChange e m s) = handleZoomChange e m s"
proof (cases "getZoom m \<ge> MUNICIPIO_ZOOM_THRESHOLD")
  case True
  define vs where "vs = getVisibleUFs (toNumber e) (mapBounds m) (geoLayer s)"
  have h: "handleZoomChange e m s = fold (loadMunicipioLayer e) vs s"
    using True by (simp add: handleZoomChange_def vs_def)
  have "handleZoomChange e m (fold (loadMunicipioLayer e) vs s)
          = fold (loadMunicipioLayer e) vs (fold (loadMunicipioLayer e) vs s)"
    using True by (simp add: handleZoomChange_def vs_def)
  also have "\<dots> = fold (loadMunicipioLayer e) vs s"
    by (rule fold_all_skipped) (rule skips_after_fold)
  finally show ?thesis by (simp add: h)
next
  case False
  then show ?thesis by (simp add: handleZoomChange_def removeMunicipioLayers_def)
qed

text \<open>
  C4. Running the visibility evaluation a second time, with the same map zoom and bounds
  and no turn in between, changes nothing: the state after the second run is the state
  after the first, so no call is suspended on new fetches. In any state, for a unit
  already loaded or loading, \<open>loadMunicipioLayer\<close> returns without marking it as loading
  or issuing a fetch.
\<close>

theorem visibility_evaluation_idempotent:
  "handleZoomChange e m (handleZoomChange e m s) = handleZoomChange e m s \<and>
   inFlight (handleZoomChange e m (handleZoomChange e m s)) = inFlight (handleZoomChange e m s) \<and>
   (\<forall>u. u \<in> dom (loadedMunicipioLayers s) \<or> u \<in> loadingStates s \<longrightarrow>
      loadMunicipioLayer e u s = s)"
proof (intro conjI allI impI)
  show "handleZoomChange e m (handleZoomChange e m s) = handleZoomChange e m s"
    by (rule handleZoomChange_idem)
  then show "inFlight (handleZoomChange e m (handleZoomChange e m s))
      = inFlight (handleZoomChange e m s)"
    by simp
next
  fix u
  assume "u \<in> dom (loadedMunicipioLayers s) \<or> u \<in> loadingStates s"
  then have "skips e u s" by (auto simp: skips_def)
  then show "loadMunicipioLayer e u s = s" by (rule skips_unchanged)
qed

lemma run_snoc: "run e (evs @ [ev]) s = step e ev (run e evs s)"
  by (simp add: run_def)

lemma scenario_zoom_in: "run exampleEnv [StateLayerBuilt stateLayers, ViewportChange zoomedIn] initialState
   = afterZoomIn"
  by (simp add: run_def handleZoomChange_def initialState_def visible_example exampleEnv_def
      loadMunicipioLayer_def zoom_examples afterZoomIn_def)

lemma scenario_switch: "step exampleEnv (DiseaseSelected ''zika'') afterZoomIn
   = afterZoomIn \<lparr> currentDisease := ''zika'' \<rparr>"
  by (simp add: afterZoomIn_def setMapDisease_def handleZoomChange_def visible_example
      exampleEnv_def loadMunicipioLayer_def zoom_examples)

lemma scenario_stale_settle: "step exampleEnv (FetchesSettled 35 (Fulfilled (FeatureCollection [3550308]) dengueAlerts))
     (afterZoomIn \<lparr> currentDisease := ''zika'' \<rparr>)
   = \<lparr> mapObj = Some zoomedIn, geoLayer = Some stateLayers, currentDisease = ''zika'',
       loadedMunicipioLayers =
         [35 \<mapsto> \<lparr> geometry = [3550308], alertsOf = dengueAlerts, requestedFor = ''dengue'' \<rparr>],
       loadingStates = {},
       municipioAlertCache = [35 \<mapsto> dengueAlerts], inFlight = [] \<rparr>"
  by (simp add: afterZoomIn_def settle_def loadMunicipioLayer_resume_def L_geoJSON_def)

theorem visibility_evaluation_idempotent_witness:
  "handleZoomChange exampleEnv zoomedIn
     (handleZoomChange exampleEnv zoomedIn
        (initialState \<lparr> mapObj := Some zoomedIn, geoLayer := Some stateLayers \<rparr>))
     = afterZoomIn \<and>
   inFlight afterZoomIn = [(35, ''dengue'')] \<and>
   loadMunicipioLayer exampleEnv 35 afterZoomIn = afterZoomIn"
proof -
  have first: "handleZoomChange exampleEnv zoomedIn
        (initialState \<lparr> mapObj := Some zoomedIn, geoLayer := Some stateLayers \<rparr>) = afterZoomIn"
    by (simp add: handleZoomChange_def initialState_def visible_example exampleEnv_def
        loadMunicipioLayer_def zoom_examples afterZoomIn_def)
  have loading: "35 \<in> dom (loadedMunicipioLayers afterZoomIn) \<or> 35 \<in> loadingStates afterZoomIn"
    by (simp add: afterZoomIn_def)
  note t = visibility_evaluation_idempotent [of exampleEnv zoomedIn
      "initialState \<lparr> mapObj := Some zoomedIn, geoLayer := Some stateLayers \<rparr>"]
  note u = visibility_evaluation_idempotent [of exampleEnv zoomedIn afterZoomIn,
      THEN conjunct2, THEN conjunct2, rule_format, OF loading]
  from t [THEN conjunct1] first u show ?thesis by (simp add: afterZoomIn_def)
qed

subsection \<open>Zooming out\<close>

text \<open>
  C3, as amended. When the map reports a zoom below the municipality threshold, every
  loaded municipality layer is removed: the table of loaded layers is empty afterwards.
  The alert cache is left as it was (its entries are deleted on a disease switch only),
  and no fetch is issued.
\<close>

theorem zoom_out_removes_layers_keeps_cache:
  assumes "getZoom m < MUNICIPIO_ZOOM_THRESHOLD"
  shows "loadedMunicipioLayers (step e (ViewportChange m) s) = Map.empty \<and>
         municipioAlertCache (step e (ViewportChange m) s) = municipioAlertCache s \<and>
         inFlight (step e (ViewportChange m) s) = inFlight s"
  using assms by (simp add: handleZoomChange_def removeMunicipioLayers_def)

lemma scenario_loaded:
  "run exampleEnv
     [StateLayerBuilt stateLayers, ViewportChange zoomedIn,
      FetchesSettled 35 (Fulfilled (FeatureCollection [3550308]) dengueAlerts)] initialState
   = afterLoad"
proof -
  have "run exampleEnv
     [StateLayerBuilt stateLayers, ViewportChange zoomedIn,
      FetchesSettled 35 (Fulfilled (FeatureCollection [3550308]) dengueAlerts)] initialState
    = step exampleEnv (FetchesSettled 35 (Fulfilled (FeatureCollection [3550308]) dengueAlerts))
        (run exampleEnv [StateLayerBuilt stateLayers, ViewportChange zoomedIn] initialState)"
    by (simp add: run_def)
  also have "\<dots> = afterLoad"
    by (simp add: scenario_zoom_in)
      (simp add: afterZoomIn_def afterLoad_def settle_def loadMunicipioLayer_resume_def
        L_geoJSON_def)
  finally show ?thesis .
qed

theorem zoom_out_removes_layers_keeps_cache_witness:
  "getZoom zoomedOut < MUNICIPIO_ZOOM_THRESHOLD \<and>
   loadedMunicipioLayers (step exampleEnv (ViewportChange zoomedOut) afterLoad) = Map.empty \<and>
   municipioAlertCache (step exampleEnv (ViewportChange zoomedOut) afterLoad)
     = [35 \<mapsto> dengueAlerts]"
proof -
  have z: "getZoom zoomedOut < MUNICIPIO_ZOOM_THRESHOLD"
    by (simp add: zoomedOut_def MUNICIPIO_ZOOM_THRESHOLD_def)
  from z zoom_out_removes_layers_keeps_cache [OF z, of exampleEnv afterLoad]
  show ?thesis by (simp add: afterLoad_def)
qed

text \<open>
  C3, as stated, fails for the alert cache: unit 35 is loaded, the user zooms out, and
  the alert cache still holds the entry of unit 35.
\<close>

theorem zoom_out_keeps_alert_cache:
  "loadedMunicipioLayers
     (run exampleEnv
        [StateLayerBuilt stateLayers, ViewportChange zoomedIn,
         FetchesSettled 35 (Fulfilled (FeatureCollection [3550308]) dengueAlerts)]
        initialState) 35
     = Some \<lparr> geometry = [3550308], alertsOf = dengueAlerts, requestedFor = ''dengue'' \<rparr> \<and>
   getZoom zoomedOut < MUNICIPIO_ZOOM_THRESHOLD \<and>
   municipioAlertCache
     (run exampleEnv
        ([StateLayerBuilt stateLayers, ViewportChange zoomedIn,
          FetchesSettled 35 (Fulfilled (FeatureCollection [3550308]) dengueAlerts)]
         @ [ViewportChange zoomedOut])
        initialState) 35
     = Some dengueAlerts"
  by (simp only: run_snoc scenario_loaded)
    (simp add: afterLoad_def handleZoomChange_def removeMunicipioLayers_def zoomedOut_def
      MUNICIPIO_ZOOM_THRESHOLD_def)

subsection \<open>Sanitation opacity\<close>

lemma round_half_even_mono:
  assumes "y \<le> z"
  shows "round_half_even y \<le> round_half_even z"
proof -
  have fl: "\<lfloor>y\<rfloor> \<le> \<lfloor>z\<rfloor>" using assms by (rule floor_mono)
  have lo: "\<lfloor>t\<rfloor> \<le> round_half_even t" and hi: "round_half_even t \<le> \<lfloor>t\<rfloor> + 1" for t
    by (simp_all add: round_half_even_def Let_def)
  show ?thesis
  proof (cases "\<lfloor>y\<rfloor> < \<lfloor>z\<rfloor>")
    case True
    have "round_half_even y \<le> \<lfloor>y\<rfloor> + 1" by (rule hi)
    also have "\<dots> \<le> \<lfloor>z\<rfloor>" using True by simp
    also have "\<dots> \<le> round_half_even z" by (rule lo)
    finally show ?thesis .
  next
    case False
    with fl have eq: "\<lfloor>y\<rfloor> = \<lfloor>z\<rfloor>" by simp
    with assms have "y - of_int \<lfloor>y\<rfloor> \<le> z - of_int \<lfloor>z\<rfloor>" by simp
    with eq show ?thesis by (auto simp: round_half_even_def Let_def)
  qed
qed

lemma round_half_even_of_int [simp]: "round_half_even (of_int k) = k"
  by (simp add: round_half_even_def)

lemma exponent_search_spec:
  "- 1022 \<le> exponent_search n x \<and> exponent_search n x \<le> int n - 1022 \<and>
   (- 1022 < exponent_search n x \<longrightarrow> 2 powi (exponent_search n x) \<le> x) \<and>
   (exponent_search n x < int n - 1022 \<longrightarrow> x < 2 powi (exponent_search n x + 1))"
proof (induction n)
  case 0
  show ?case by simp
next
  case (Suc n)
  show ?case
  proof (cases "2 powi (int (Suc n) - 1022) \<le> x")
    case True
    then show ?thesis by simp
  next
    case False
    then have r: "exponent_search (Suc n) x = exponent_search n x" by simp
    have top: "x < 2 powi (exponent_search n x + 1)" if "exponent_search n x = int n - 1022"
    proof -
      have e: "exponent_search n x + 1 = int (Suc n) - 1022" using that by simp
      from False show ?thesis unfolding e by (simp only: not_le)
    qed
    from Suc top show ?thesis unfolding r by (cases "exponent_search n x = int n - 1022") auto
  qed
qed

lemma exponent_range: "- 1022 \<le> exponent x" "exponent x \<le> 1023"
  using exponent_search_spec [of 2045 "\<bar>x\<bar>"] by (simp_all add: exponent_def)

lemma exponent_lower: "- 1022 < exponent x \<Longrightarrow> 2 powi (exponent x) \<le> \<bar>x\<bar>"
  using exponent_search_spec [of 2045 "\<bar>x\<bar>"] by (simp add: exponent_def)

lemma exponent_upper: "exponent x < 1023 \<Longrightarrow> \<bar>x\<bar> < 2 powi (exponent x + 1)"
  using exponent_search_spec [of 2045 "\<bar>x\<bar>"] by (simp add: exponent_def)

lemma pow2_mono: "a \<le> b \<Longrightarrow> (2::rat) powi a \<le> 2 powi b"
  by (rule power_int_increasing) simp_all

lemma exponent_mono:
  assumes "\<bar>x\<bar> \<le> \<bar>y\<bar>"
  shows "exponent x \<le> exponent y"
proof (rule ccontr)
  assume "\<not> exponent x \<le> exponent y"
  then have lt: "exponent y < exponent x" by simp
  with exponent_range [of y] have "- 1022 < exponent x" by simp
  then have "2 powi (exponent x) \<le> \<bar>x\<bar>" by (rule exponent_lower)
  moreover from lt exponent_range [of x] have "exponent y < 1023" by simp
  then have "\<bar>y\<bar> < 2 powi (exponent y + 1)" by (rule exponent_upper)
  moreover from lt have "(2::rat) powi (exponent y + 1) \<le> 2 powi (exponent x)"
    by (intro pow2_mono) simp
  ultimately show False using assms by simp
qed

lemma exponent_unique:
  assumes "- 1022 \<le> e" and "e \<le> 1023" and "2 powi e \<le> \<bar>x\<bar>" and "\<bar>x\<bar> < 2 powi (e + 1)"
  shows "exponent x = e"
proof (rule antisym)
  show "exponent x \<le> e"
  proof (rule ccontr)
    assume "\<not> exponent x \<le> e"
    then have lt: "e < exponent x" by simp
    with assms(1) have "- 1022 < exponent x" by simp
    then have "2 powi (exponent x) \<le> \<bar>x\<bar>" by (rule exponent_lower)
    moreover from lt have "(2::rat) powi (e + 1) \<le> 2 powi (exponent x)"
      by (intro pow2_mono) simp
    ultimately show False using assms(4) by simp
  qed
  show "e \<le> exponent x"
  proof (rule ccontr)
    assume "\<not> e \<le> exponent x"
    then have lt: "exponent x < e" by simp
    with assms(2) have "exponent x < 1023" by simp
    then have "\<bar>x\<bar> < 2 powi (exponent x + 1)" by (rule exponent_upper)
    moreover from lt have "(2::rat) powi (exponent x + 1) \<le> 2 powi e"
      by (intro pow2_mono) simp
    ultimately show False using assms(3) by simp
  qed
qed

lemma exponent_zero: "exponent 0 = - 1022"
proof (rule ccontr)
  assume "exponent 0 \<noteq> - 1022"
  with exponent_range(1) [of 0] have "- 1022 < exponent 0" by simp
  from exponent_lower [OF this] have "(2::rat) powi (exponent 0) \<le> 0" by simp
  moreover have "0 < (2::rat) powi (exponent 0)" by simp
  ultimately show False by linarith
qed

text \<open>Rounding to a fixed grid of spacing \<open>u\<close>.\<close>

lemma grid_mono:
  assumes "0 < u" and "x \<le> y"
  shows "of_int (round_half_even (x / u)) * u \<le> (of_int (round_half_even (y / u)) * u :: rat)"
proof -
  from assms have "x / u \<le> y / u" by (simp add: divide_right_mono)
  then have "round_half_even (x / u) \<le> round_half_even (y / u)" by (rule round_half_even_mono)
  then have "(of_int (round_half_even (x / u)) :: rat) \<le> of_int (round_half_even (y / u))"
    by simp
  with assms(1) show ?thesis by (simp add: mult_right_mono)
qed

lemma grid_fixed:
  assumes "0 < u"
  shows "of_int (round_half_even (of_int k * u / u)) * u = (of_int k * u :: rat)"
  using assms by simp

lemma pow2_pos: "0 < (2::rat) powi e"
  by simp

lemma pow2_split: "(2::rat) powi a = of_int (2 ^ nat (a - b)) * 2 powi b" if "b \<le> a"
proof -
  have "(2::rat) powi a = 2 powi ((a - b) + b)" by simp
  also have "\<dots> = 2 powi (a - b) * 2 powi b" by (rule power_int_add) simp
  also have "(2::rat) powi (a - b) = 2 ^ nat (a - b)" using that by (simp add: power_int_def)
  finally show ?thesis by simp
qed

lemma round_double_mono:
  assumes "0 \<le> x" and "x \<le> y"
  shows "round_double x \<le> round_double y"
proof (cases "exponent x = exponent y")
  case True
  then have "ulp x = ulp y" by (simp add: ulp_def)
  with grid_mono [OF pow2_pos assms(2), of "exponent y - 52"] show ?thesis
    by (simp add: round_double_def ulp_def)
next
  case False
  from assms have abs: "\<bar>x\<bar> \<le> \<bar>y\<bar>" by simp
  with False exponent_mono [OF abs] have lt: "exponent x < exponent y" by simp
  define B where "B = (2::rat) powi (exponent x + 1)"
  define C where "C = (2::rat) powi (exponent y)"
  from lt exponent_range [of y] have "exponent x < 1023" by simp
  from exponent_upper [OF this] assms have xB: "x \<le> B" by (simp add: B_def)
  from lt exponent_range [of x] have "- 1022 < exponent y" by simp
  from exponent_lower [OF this] assms have Cy: "C \<le> y" by (simp add: C_def)
  from lt have BC: "B \<le> C" unfolding B_def C_def by (intro pow2_mono) simp
  have Bgrid: "B = of_int (2 ^ nat (exponent x + 1 - (exponent x - 52))) * ulp x"
    unfolding B_def ulp_def by (rule pow2_split) simp
  have Cgrid: "C = of_int (2 ^ nat (exponent y - (exponent y - 52))) * ulp y"
    unfolding C_def ulp_def by (rule pow2_split) simp
  have ux: "0 < ulp x" and uy: "0 < ulp y" by (simp_all add: ulp_def)
  have "round_double x \<le> of_int (round_half_even (B / ulp x)) * ulp x"
    unfolding round_double_def by (rule grid_mono [OF ux xB])
  also have "\<dots> = B"
    using grid_fixed [OF ux, of "2 ^ nat (exponent x + 1 - (exponent x - 52))"] Bgrid by simp
  also note BC
  also have "C = of_int (round_half_even (C / ulp y)) * ulp y"
    using grid_fixed [OF uy, of "2 ^ nat (exponent y - (exponent y - 52))"] Cgrid by simp
  also have "\<dots> \<le> round_double y"
    unfolding round_double_def by (rule grid_mono [OF uy Cy])
  finally show ?thesis .
qed

lemma floor_rat_numeral:
  "\<lfloor>(numeral a / numeral b :: rat)\<rfloor> = numeral a div numeral b"
  by (metis floor_divide_of_int_eq of_int_numeral)

lemma round_double_at:
  assumes "- 1022 \<le> e" and "e \<le> 1023" and "2 powi e \<le> \<bar>x\<bar>" and "\<bar>x\<bar> < 2 powi (e + 1)"
    and "round_half_even (x / 2 powi (e - 52)) = n" and "of_int n * 2 powi (e - 52) = y"
  shows "round_double x = y"
  using exponent_unique [OF assms(1-4)] assms(5,6) by (simp add: round_double_def ulp_def)

lemma round_double_0: "round_double 0 = 0"
  by (simp add: round_double_def round_half_even_def)

lemma round_double_nonneg: "0 \<le> x \<Longrightarrow> 0 \<le> round_double x"
  using round_double_mono [of 0 x] by (simp add: round_double_0)

lemma literal_035: "round_double (35 / 100) = 6305039478318694 / 2 ^ 54"
  by (rule round_double_at [where e = "- 2" and n = 6305039478318694])
    (simp_all add: round_half_even_def Let_def floor_rat_numeral)

lemma literal_04: "round_double (4 / 10) = 7205759403792794 / 2 ^ 54"
  by (rule round_double_at [where e = "- 2" and n = 7205759403792794])
    (simp_all add: round_half_even_def Let_def floor_rat_numeral)

lemma literal_075: "round_double (75 / 100) = 3 / 4"
  by (rule round_double_at [where e = "- 1" and n = 6755399441055744])
    (simp_all add: round_half_even_def Let_def floor_rat_numeral)

lemma round_double_1: "round_double 1 = 1"
  by (rule round_double_at [where e = 0 and n = 4503599627370496])
    (simp_all add: round_half_even_def Let_def floor_rat_numeral)

lemma round_double_035: "round_double (6305039478318694 / 2 ^ 54) = 6305039478318694 / 2 ^ 54"
  by (rule round_double_at [where e = "- 2" and n = 6305039478318694])
    (simp_all add: round_half_even_def Let_def floor_rat_numeral)

lemma round_double_04: "round_double (7205759403792794 / 2 ^ 54) = 7205759403792794 / 2 ^ 54"
  by (rule round_double_at [where e = "- 2" and n = 7205759403792794])
    (simp_all add: round_half_even_def Let_def floor_rat_numeral)

lemma round_double_sum: 
  "round_double (6305039478318694 / 2 ^ 54 + 7205759403792794 / 2 ^ 54) = 3 / 4"
  by (rule round_double_at [where e = "- 1" and n = 6755399441055744])
    (simp_all add: round_half_even_def Let_def floor_rat_numeral)

lemma opacity_0: "getSanitationOpacity 0 = round_double (35 / 100)"
proof -
  have z: "(0::rat) / 100 = 0" by simp
  show ?thesis
    unfolding getSanitationOpacity_def z round_double_0 mult_zero_left add_0_right
      literal_035 round_double_035 ..
qed

lemma opacity_100: "getSanitationOpacity 100 = round_double (75 / 100)"
proof -
  have z: "(100::rat) / 100 = 1" by simp
  show ?thesis
    unfolding getSanitationOpacity_def z round_double_1 mult_1 literal_035 literal_04
      round_double_04 round_double_sum literal_075 ..
qed

lemma opacity_mono:
  assumes "0 \<le> p" and "p \<le> q"
  shows "getSanitationOpacity p \<le> getSanitationOpacity q"
proof -
  have c04: "0 \<le> round_double (4 / 10)" by (rule round_double_nonneg) simp
  have c035: "0 \<le> round_double (35 / 100)" by (rule round_double_nonneg) simp
  from assms have d: "0 \<le> p / 100" "p / 100 \<le> q / 100" by simp_all
  have r1: "round_double (p / 100) \<le> round_double (q / 100)" by (rule round_double_mono [OF d])
  have n1: "0 \<le> round_double (p / 100)" by (rule round_double_nonneg [OF d(1)])
  from r1 c04 have m: "round_double (p / 100) * round_double (4 / 10)
      \<le> round_double (q / 100) * round_double (4 / 10)"
    by (rule mult_right_mono)
  from n1 c04 have n2: "0 \<le> round_double (p / 100) * round_double (4 / 10)"
    by (rule mult_nonneg_nonneg)
  have r2: "round_double (round_double (p / 100) * round_double (4 / 10))
      \<le> round_double (round_double (q / 100) * round_double (4 / 10))"
    by (rule round_double_mono [OF n2 m])
  have n3: "0 \<le> round_double (round_double (p / 100) * round_double (4 / 10))"
    by (rule round_double_nonneg [OF n2])
  from c035 n3 have n4: "0 \<le> round_double (35 / 100)
      + round_double (round_double (p / 100) * round_double (4 / 10))"
    by (rule add_nonneg_nonneg)
  from r2 have s: "round_double (35 / 100)
        + round_double (round_double (p / 100) * round_double (4 / 10))
      \<le> round_double (35 / 100)
        + round_double (round_double (q / 100) * round_double (4 / 10))"
    by (rule add_left_mono)
  show ?thesis unfolding getSanitationOpacity_def by (rule round_double_mono [OF n4 s])
qed

text \<open>
  C8. For all percents \<open>p \<le> q\<close> in \<open>[0, 100]\<close> the opacity at \<open>p\<close> is at most the opacity
  at \<open>q\<close>, and it lies between the values of the literals \<open>0.35\<close> and \<open>0.75\<close>; the
  opacity is exactly the value of \<open>0.35\<close> at percent 0 and exactly the value of \<open>0.75\<close>
  at percent 100. The value of \<open>0.75\<close> is \<open>3/4\<close>; the value of \<open>0.35\<close> is the nearest
  binary64 number, \<open>6305039478318694 / 2 ^ 54\<close>.
\<close>

theorem getSanitationOpacity_monotone_bounded:
  assumes "0 \<le> p" and "p \<le> q" and "q \<le> 100"
  shows "getSanitationOpacity p \<le> getSanitationOpacity q \<and>
         round_double (35 / 100) \<le> getSanitationOpacity p \<and>
         getSanitationOpacity p \<le> round_double (75 / 100) \<and>
         getSanitationOpacity 0 = round_double (35 / 100) \<and>
         getSanitationOpacity 100 = round_double (75 / 100) \<and>
         round_double (75 / 100) = 3 / 4 \<and>
         round_double (35 / 100) = 6305039478318694 / 2 ^ 54"
proof -
  from assms have p100: "p \<le> 100" by simp
  have zero: "(0::rat) \<le> 0" by simp
  have mono: "getSanitationOpacity p \<le> getSanitationOpacity q"
    by (rule opacity_mono [OF assms(1,2)])
  have lo: "round_double (35 / 100) \<le> getSanitationOpacity p"
    using opacity_mono [OF zero assms(1)] unfolding opacity_0 .
  have hi: "getSanitationOpacity p \<le> round_double (75 / 100)"
    using opacity_mono [OF assms(1) p100] unfolding opacity_100 .
  from mono lo hi opacity_0 opacity_100 literal_075 literal_035 show ?thesis
    by (intro conjI)
qed

lemma opacity_50: "getSanitationOpacity 50 = 4953959590107546 / 2 ^ 53"
proof -
  have half: "round_double (50 / 100) = 1 / 2"
    by (rule round_double_at [where e = "- 1" and n = 4503599627370496])
      (simp_all add: round_half_even_def Let_def floor_rat_numeral)
  have prod: "round_double (1 / 2 * (7205759403792794 / 2 ^ 54)) = 7205759403792794 / 2 ^ 55"
    by (rule round_double_at [where e = "- 3" and n = 7205759403792794])
      (simp_all add: round_half_even_def Let_def floor_rat_numeral)
  have sum: "round_double (6305039478318694 / 2 ^ 54 + 7205759403792794 / 2 ^ 55)
      = 4953959590107546 / 2 ^ 53"
    by (rule round_double_at [where e = "- 1" and n = 4953959590107546])
      (simp_all add: round_half_even_def Let_def floor_rat_numeral)
  show ?thesis
    unfolding getSanitationOpacity_def half literal_035 literal_04 prod sum ..
qed

theorem getSanitationOpacity_monotone_bounded_witness:
  "getSanitationOpacity 0 \<le> getSanitationOpacity 50 \<and>
   getSanitationOpacity 50 \<le> getSanitationOpacity 100 \<and>
   getSanitationOpacity 0 = 6305039478318694 / 2 ^ 54 \<and>
   getSanitationOpacity 50 = 4953959590107546 / 2 ^ 53 \<and>
   getSanitationOpacity 100 = 3 / 4"
proof -
  have a: "(0::rat) \<le> 0" "(0::rat) \<le> 50" "(50::rat) \<le> 100" "(100::rat) \<le> 100" by simp_all
  note lo = getSanitationOpacity_monotone_bounded [OF a(1) a(2) a(3)]
  note hi = getSanitationOpacity_monotone_bounded [OF a(2) a(3) a(4)]
  have v0: "getSanitationOpacity 0 = 6305039478318694 / 2 ^ 54"
    using lo [THEN conjunct2, THEN conjunct2, THEN conjunct2, THEN conjunct1]
    unfolding literal_035 .
  have v100: "getSanitationOpacity 100 = 3 / 4"
    using lo [THEN conjunct2, THEN conjunct2, THEN conjunct2, THEN conjunct2, THEN conjunct1]
    unfolding literal_075 .
  from lo [THEN conjunct1] hi [THEN conjunct1] v0 opacity_50 v100 show ?thesis
    by (intro conjI)
qed

subsection \<open>A disease switch during a fetch\<close>

text \<open>
  C1. The claim requires the result of a fetch that was in flight when the disease
  changed to be discarded. The code applies it: with unit 35 loading for dengue, the
  switch to zika issues no new request for unit 35 (it is in \<open>loadingStates\<close>), and when
  the dengue request settles, its layer and its alert-cache entry are stored while zika
  is the active disease.
\<close>

theorem stale_result_applied:
  "run exampleEnv
     [StateLayerBuilt stateLayers, ViewportChange zoomedIn, DiseaseSelected ''zika'',
      FetchesSettled 35 (Fulfilled (FeatureCollection [3550308]) dengueAlerts)] initialState
   = \<lparr> mapObj = Some zoomedIn, geoLayer = Some stateLayers, currentDisease = ''zika'',
       loadedMunicipioLayers =
         [35 \<mapsto> \<lparr> geometry = [3550308], alertsOf = dengueAlerts, requestedFor = ''dengue'' \<rparr>],
       loadingStates = {},
       municipioAlertCache = [35 \<mapsto> dengueAlerts], inFlight = [] \<rparr>"
proof -
  have "run exampleEnv
     [StateLayerBuilt stateLayers, ViewportChange zoomedIn, DiseaseSelected ''zika'',
      FetchesSettled 35 (Fulfilled (FeatureCollection [3550308]) dengueAlerts)] initialState
    = step exampleEnv (FetchesSettled 35 (Fulfilled (FeatureCollection [3550308]) dengueAlerts))
       (step exampleEnv (DiseaseSelected ''zika'')
         (run exampleEnv [StateLayerBuilt stateLayers, ViewportChange zoomedIn] initialState))"
    by (simp add: run_def)
  then show ?thesis by (simp only: scenario_zoom_in scenario_switch scenario_stale_settle)
qed

end
